theory Spec2Isabelle
  imports Main "HOL-Library.Char_ord" "HOL-Library.List_Lexorder" "HOL-Library.Product_Lexorder"
    "HOL-Library.Multiset"
begin

section \<open>JavaScript values\<close>

text \<open>
  The values that reach the handlers of \<^verbatim>\<open>backend/server.js\<close> come out of the JSON and
  urlencoded body parsers, and the values the handlers send go through \<^verbatim>\<open>res.json\<close>.
  A string is a list of code units; \<^typ>\<open>char\<close> covers the code units below 256.
  \<open>Num\<close> carries the numbers with an integral value (a safe integer): the handlers
  only test a number for truthiness, compare it and send it.
\<close>

datatype jsval =
    Undefined
  | Null
  | Bool bool
  | Num int
  | Str string
  | Arr "jsval list"
  | Obj "(string \<times> jsval) list"

text \<open>\<^verbatim>\<open>!v\<close> is true exactly on the falsy values.\<close>

fun truthy :: "jsval \<Rightarrow> bool" where
  "truthy Undefined = False"
| "truthy Null = False"
| "truthy (Bool b) = b"
| "truthy (Num n) = (n \<noteq> 0)"
| "truthy (Str s) = (s \<noteq> [])"
| "truthy (Arr xs) = True"
| "truthy (Obj ps) = True"

text \<open>
  Reading a property of a parsed object: \<^verbatim>\<open>undefined\<close> when the key is absent. An
  object is the list of its properties, each key once; of a key listed more than once the
  first binding counts.
\<close>

definition get_prop :: "(string \<times> jsval) list \<Rightarrow> string \<Rightarrow> jsval" where
  "get_prop ps k = (case map_of ps k of None \<Rightarrow> Undefined | Some v \<Rightarrow> v)"

text \<open>
  A thrown \<^verbatim>\<open>Error\<close>: its \<^verbatim>\<open>code\<close> (set by the database driver, absent on a
  \<^verbatim>\<open>TypeError\<close>) and its \<^verbatim>\<open>message\<close>.
\<close>

datatype js_error = JsError (err_code: "string option") (err_message: string)

subsection \<open>Characters\<close>

definition is_digit :: "char \<Rightarrow> bool" where
  "is_digit c = (c \<in> set ''0123456789'')"

text \<open>
  White space and line terminators among the code units below 256: TAB, LF, VT, FF, CR,
  SP and NBSP. \<^verbatim>\<open>String.prototype.trim\<close>, \<^verbatim>\<open>parseInt\<close> and the string-to-number
  conversion all strip this set.
\<close>

definition is_space :: "char \<Rightarrow> bool" where
  "is_space c = (of_char c \<in> {9, 10, 11, 12, 13, 32, 160 :: nat})"

definition trim_start :: "string \<Rightarrow> string" where
  "trim_start s = dropWhile is_space s"

definition trim :: "string \<Rightarrow> string" where
  "trim s = rev (dropWhile is_space (rev (dropWhile is_space s)))"

subsection \<open>String conversion\<close>

function digits_of :: "nat \<Rightarrow> string" where
  "digits_of n =
     (if n < 10 then [''0123456789'' ! n]
      else digits_of (n div 10) @ [''0123456789'' ! (n mod 10)])"
  by pat_completeness auto
termination
  by (relation "measure id") auto

declare digits_of.simps [simp del]

definition show_int :: "int \<Rightarrow> string" where
  "show_int i = (if i < 0 then CHR ''-'' # digits_of (nat (- i)) else digits_of (nat i))"

fun join_comma :: "string list \<Rightarrow> string" where
  "join_comma [] = []"
| "join_comma [s] = s"
| "join_comma (s # t # ss) = s @ '','' @ join_comma (t # ss)"

text \<open>
  \<^verbatim>\<open>String(v)\<close>, the coercion \<^verbatim>\<open>RegExp.prototype.test\<close> applies to its argument. An
  array joins its elements with commas, \<^verbatim>\<open>null\<close> and \<^verbatim>\<open>undefined\<close> elements as the
  empty string. A plain object is \<^verbatim>\<open>[object Object]\<close>, unless it has a property of
  its own named \<^verbatim>\<open>toString\<close>: a parsed value is never a function, so the conversion
  finds no method that returns a primitive and throws a \<^verbatim>\<open>TypeError\<close>.
\<close>

fun to_string :: "jsval \<Rightarrow> js_error + string"
  and elements_to_strings :: "jsval list \<Rightarrow> js_error + string list" where
  "to_string Undefined = Inr ''undefined''"
| "to_string Null = Inr ''null''"
| "to_string (Bool b) = Inr (if b then ''true'' else ''false'')"
| "to_string (Num n) = Inr (show_int n)"
| "to_string (Str s) = Inr s"
| "to_string (Arr xs) =
     (case elements_to_strings xs of Inl error \<Rightarrow> Inl error | Inr ss \<Rightarrow> Inr (join_comma ss))"
| "to_string (Obj ps) =
     (if ''toString'' \<in> set (map fst ps)
      then Inl (JsError None ''Cannot convert object to primitive value'')
      else Inr ''[object Object]'')"
| "elements_to_strings [] = Inr []"
| "elements_to_strings (x # xs) =
     (case (if x = Null \<or> x = Undefined then Inr [] else to_string x) of
        Inl error \<Rightarrow> Inl error
      | Inr s \<Rightarrow>
          (case elements_to_strings xs of Inl error \<Rightarrow> Inl error | Inr ss \<Rightarrow> Inr (s # ss)))"

section \<open>The date pattern\<close>

text \<open>
  \<^verbatim>\<open>const dateRegex = /^\d{4}-\d{2}-\d{2}$/\<close>: a sequence of atoms, each repeated an exact
  number of times, anchored at both ends of the input. Without the \<^verbatim>\<open>m\<close> flag \<^verbatim>\<open>$\<close>
  matches at the end of the input only.
\<close>

datatype atom = DigitCls | Lit char

fun atom_matches :: "atom \<Rightarrow> char \<Rightarrow> bool" where
  "atom_matches DigitCls c = is_digit c"
| "atom_matches (Lit l) c = (c = l)"

text \<open>Consume exactly \<open>n\<close> characters of the class; the rest of the input on success.\<close>

fun match_rep :: "atom \<Rightarrow> nat \<Rightarrow> string \<Rightarrow> string option" where
  "match_rep a 0 s = Some s"
| "match_rep a (Suc n) [] = None"
| "match_rep a (Suc n) (c # s) = (if atom_matches a c then match_rep a n s else None)"

fun match_seq :: "(atom \<times> nat) list \<Rightarrow> string \<Rightarrow> string option" where
  "match_seq [] s = Some s"
| "match_seq ((a, n) # p) s =
     (case match_rep a n s of None \<Rightarrow> None | Some rest \<Rightarrow> match_seq p rest)"

text \<open>\<^verbatim>\<open>regex.test(v)\<close>: the argument is converted to a string first.\<close>

definition regex_test :: "(atom \<times> nat) list \<Rightarrow> jsval \<Rightarrow> js_error + bool" where
  "regex_test p v =
     (case to_string v of Inl error \<Rightarrow> Inl error | Inr s \<Rightarrow> Inr (match_seq p s = Some []))"

definition dateRegex :: "(atom \<times> nat) list" where
  "dateRegex =
     [(DigitCls, 4), (Lit (CHR ''-''), 1), (DigitCls, 2), (Lit (CHR ''-''), 1), (DigitCls, 2)]"

text \<open>
  The pattern in the specification's words: four digits, a dash, two digits, a dash, two
  digits, and nothing else.
\<close>

definition is_ymd_lexical :: "string \<Rightarrow> bool" where
  "is_ymd_lexical s =
     (length s = 10 \<and>
      list_all is_digit (take 4 s) \<and> s ! 4 = CHR ''-'' \<and>
      list_all is_digit (take 2 (drop 5 s)) \<and> s ! 7 = CHR ''-'' \<and>
      list_all is_digit (drop 8 s))"

section \<open>Errors and responses\<close>

record response =
  res_status :: nat
  res_body :: jsval

text \<open>\<^verbatim>\<open>res.status(n).json(obj)\<close>; \<^verbatim>\<open>res.json(obj)\<close> alone sends status 200.\<close>

definition json :: "nat \<Rightarrow> (string \<times> jsval) list \<Rightarrow> response" where
  "json n ps = \<lparr>res_status = n, res_body = Obj ps\<rparr>"

text \<open>
  \<^verbatim>\<open>v.trim()\<close> on a value the body parser produced: a string has the method, every
  other value raises a \<^verbatim>\<open>TypeError\<close>. \<open>nm\<close> is the variable's name, which the message
  quotes.
\<close>

fun call_trim :: "string \<Rightarrow> jsval \<Rightarrow> js_error + string" where
  "call_trim nm (Str s) = Inr (trim s)"
| "call_trim nm Undefined =
     Inl (JsError None ''Cannot read properties of undefined (reading 'trim')'')"
| "call_trim nm Null =
     Inl (JsError None ''Cannot read properties of null (reading 'trim')'')"
| "call_trim nm v = Inl (JsError None (nm @ ''.trim is not a function''))"

section \<open>The Attendance table\<close>

text \<open>
  The table of \<^verbatim>\<open>initDatabase\<close>:
  \<^verbatim>\<open>id INT AUTO_INCREMENT PRIMARY KEY, employeeName VARCHAR(255) NOT NULL,
  employeeID VARCHAR(100) NOT NULL, date DATE NOT NULL, status ENUM('Present', 'Absent')
  NOT NULL, created_at TIMESTAMP DEFAULT CURRENT_TIMESTAMP\<close>.
  A date is kept as its \<^verbatim>\<open>YYYY-MM-DD\<close> text, a timestamp as a number.
\<close>

record row =
  row_id :: int
  row_employeeName :: string
  row_employeeID :: string
  row_date :: string
  row_status :: string
  row_created_at :: nat

text \<open>
  A JavaScript number as \<^verbatim>\<open>parseInt\<close> returns it: \<^verbatim>\<open>NaN\<close>, an infinity, or a double
  with an integral value, given by that value.
\<close>

datatype number = NaN | Infinity | NegInfinity | Finite int

text \<open>The three statements the handlers pass to \<^verbatim>\<open>pool.execute\<close>, with their parameters.\<close>

datatype stmt =
    SelectAll
  | InsertRow string string jsval jsval
  | DeleteById number

text \<open>
  The database server behind the pool. \<open>rejects\<close> is the server's own decision to fail
  a statement (unreachable, constraint violated, value refused): the handlers have no
  part in it. \<open>statements\<close> logs every statement the pool was asked to execute.
\<close>

record store =
  table_rows :: "row list"
  auto_increment :: int
  clock :: nat
  rejects :: "stmt \<Rightarrow> js_error option"
  statements :: "stmt list"

definition sort_key_desc :: "row \<Rightarrow> string \<times> nat" where
  "sort_key_desc r = (row_date r, row_created_at r)"

text \<open>
  \<^verbatim>\<open>SELECT * FROM Attendance ORDER BY date DESC, created_at DESC\<close>. The server may
  return rows that agree in both columns in any order; the model returns them in one.
\<close>

definition execute_select :: "store \<Rightarrow> (js_error + row list) \<times> store" where
  "execute_select db =
     (let db' = db\<lparr>statements := statements db @ [SelectAll]\<rparr>
      in case rejects db SelectAll of
           Some e \<Rightarrow> (Inl e, db')
         | None \<Rightarrow> (Inr (rev (sort_key sort_key_desc (table_rows db))), db'))"

text \<open>
  \<^verbatim>\<open>INSERT INTO Attendance (employeeName, employeeID, date, status) VALUES (?, ?, ?, ?)\<close>:
  the new row takes the next \<^verbatim>\<open>AUTO_INCREMENT\<close> value and the current timestamp; the
  result is the row's \<^verbatim>\<open>insertId\<close>. The \<^verbatim>\<open>date\<close> and \<^verbatim>\<open>status\<close> columns take a string
  parameter only.
\<close>

definition execute_insert ::
  "string \<Rightarrow> string \<Rightarrow> jsval \<Rightarrow> jsval \<Rightarrow> store \<Rightarrow> (js_error + int) \<times> store" where
  "execute_insert n i d s db =
     (let q = InsertRow n i d s;
          db' = db\<lparr>statements := statements db @ [q]\<rparr>
      in case rejects db q of
           Some e \<Rightarrow> (Inl e, db')
         | None \<Rightarrow>
             (case (d, s) of
                (Str ds, Str ss) \<Rightarrow>
                  (Inr (auto_increment db),
                   db'\<lparr>table_rows := table_rows db @
                          [\<lparr>row_id = auto_increment db, row_employeeName = n,
                            row_employeeID = i, row_date = ds, row_status = ss,
                            row_created_at = clock db\<rparr>],
                        auto_increment := auto_increment db + 1\<rparr>)
              | _ \<Rightarrow>
                  (Inl (JsError (Some ''ER_TRUNCATED_WRONG_VALUE'') ''Incorrect value''),
                   db')))"

text \<open>
  \<^verbatim>\<open>DELETE FROM Attendance WHERE id = ?\<close>: the result is \<^verbatim>\<open>affectedRows\<close>. An id
  equals the parameter when the parameter is the finite number of that value;
  \<^verbatim>\<open>NaN\<close> and the infinities equal no id.
\<close>

definition execute_delete :: "number \<Rightarrow> store \<Rightarrow> (js_error + nat) \<times> store" where
  "execute_delete k db =
     (let q = DeleteById k;
          db' = db\<lparr>statements := statements db @ [q]\<rparr>
      in case rejects db q of
           Some e \<Rightarrow> (Inl e, db')
         | None \<Rightarrow>
             (let kept = filter (\<lambda>r. Finite (row_id r) \<noteq> k) (table_rows db)
              in (Inr (length (table_rows db) - length kept), db'\<lparr>table_rows := kept\<rparr>)))"

text \<open>A row as the driver hands it to \<^verbatim>\<open>res.json\<close>.\<close>

definition row_json :: "row \<Rightarrow> jsval" where
  "row_json r =
     Obj [(''id'', Num (row_id r)),
          (''employeeName'', Str (row_employeeName r)),
          (''employeeID'', Str (row_employeeID r)),
          (''date'', Str (row_date r)),
          (''status'', Str (row_status r)),
          (''created_at'', Num (int (row_created_at r)))]"

text \<open>The module variable \<^verbatim>\<open>let pool\<close>: \<open>None\<close> until \<^verbatim>\<open>mysql.createPool\<close> has returned.\<close>

datatype pool = Pool

section \<open>Route handlers\<close>

text \<open>\<^verbatim>\<open>app.get('/health', ...)\<close>; \<open>now\<close> is \<^verbatim>\<open>new Date().toISOString()\<close>.\<close>

definition health :: "string \<Rightarrow> response" where
  "health now =
     json 200 [(''status'', Str ''OK''),
               (''message'', Str ''Server is running''),
               (''timestamp'', Str now)]"

text \<open>\<^verbatim>\<open>app.get('/api', ...)\<close>\<close>

definition api_info :: response where
  "api_info =
     json 200 [(''message'', Str ''Employee Attendance Tracker API''),
               (''version'', Str ''1.0.0''),
               (''endpoints'',
                Obj [(''GET /api/attendance'', Str ''Get all attendance records''),
                     (''POST /api/attendance'', Str ''Create new attendance record''),
                     (''DELETE /api/attendance/:id'', Str ''Delete attendance record'')])]"

definition not_connected :: response where
  "not_connected = json 500 [(''error'', Str ''Database not connected'')]"

text \<open>The two responses of the GET handler after the query.\<close>

definition fetch_failed :: "js_error \<Rightarrow> response" where
  "fetch_failed error =
     json 500 [(''success'', Bool False),
               (''error'', Str ''Failed to fetch attendance records''),
               (''details'', Str (err_message error))]"

definition listing :: "row list \<Rightarrow> response" where
  "listing rows =
     json 200 [(''success'', Bool True),
               (''data'', Arr (map row_json rows)),
               (''count'', Num (int (length rows)))]"

text \<open>\<^verbatim>\<open>app.get('/api/attendance', ...)\<close>\<close>

definition get_attendance :: "pool option \<Rightarrow> store \<Rightarrow> response \<times> store" where
  "get_attendance pool db =
     (case pool of
        None \<Rightarrow> (not_connected, db)
      | Some _ \<Rightarrow>
          (case execute_select db of
             (Inl error, db') \<Rightarrow> (fetch_failed error, db')
           | (Inr rows, db') \<Rightarrow> (listing rows, db')))"

text \<open>The \<^verbatim>\<open>catch\<close> block of the POST handler.\<close>

definition post_catch :: "js_error \<Rightarrow> response" where
  "post_catch error =
     (if err_code error = Some ''ER_DUP_ENTRY''
      then json 400 [(''success'', Bool False), (''error'', Str ''Duplicate entry found'')]
      else json 500 [(''success'', Bool False),
                     (''error'', Str ''Failed to record attendance''),
                     (''details'', Str (err_message error))])"

text \<open>The three responses of the validation block of the POST handler.\<close>

definition fields_required :: response where
  "fields_required =
     json 400 [(''success'', Bool False),
               (''error'', Str ''All fields are required: employeeName, employeeID, date, status'')]"

definition status_invalid :: response where
  \<open>status_invalid =
     json 400 [(''success'', Bool False), (''error'', Str ''Status must be "Present" or "Absent"'')]\<close>

definition date_invalid :: response where
  "date_invalid =
     json 400 [(''success'', Bool False), (''error'', Str ''Date must be in YYYY-MM-DD format'')]"

text \<open>The response to a successful insert: the generated id and the fields as received.\<close>

definition recorded :: "int \<Rightarrow> jsval \<Rightarrow> jsval \<Rightarrow> jsval \<Rightarrow> jsval \<Rightarrow> response" where
  "recorded insertId employeeName employeeID date status =
     json 201 [(''success'', Bool True),
               (''message'', Str ''Attendance recorded successfully''),
               (''id'', Num insertId),
               (''data'',
                Obj [(''employeeName'', employeeName),
                     (''employeeID'', employeeID),
                     (''date'', date),
                     (''status'', status)])]"

text \<open>\<^verbatim>\<open>app.post('/api/attendance', ...)\<close>; \<open>body\<close> is the parsed \<^verbatim>\<open>req.body\<close>.\<close>

definition post_attendance ::
  "pool option \<Rightarrow> (string \<times> jsval) list \<Rightarrow> store \<Rightarrow> response \<times> store" where
  "post_attendance pool body db =
     (case pool of
        None \<Rightarrow> (not_connected, db)
      | Some _ \<Rightarrow>
          (let employeeName = get_prop body ''employeeName'';
               employeeID = get_prop body ''employeeID'';
               date = get_prop body ''date'';
               status = get_prop body ''status''
           in if \<not> truthy employeeName \<or> \<not> truthy employeeID \<or> \<not> truthy date \<or> \<not> truthy status
              then (fields_required, db)
              else if status \<notin> set [Str ''Present'', Str ''Absent'']
              then (status_invalid, db)
              else
                (case regex_test dateRegex date of
                   Inl error \<Rightarrow> (post_catch error, db)
                 | Inr matches \<Rightarrow>
                     if \<not> matches then (date_invalid, db)
                     else
                       (case call_trim ''employeeName'' employeeName of
                          Inl error \<Rightarrow> (post_catch error, db)
                        | Inr n \<Rightarrow>
                            (case call_trim ''employeeID'' employeeID of
                               Inl error \<Rightarrow> (post_catch error, db)
                             | Inr i \<Rightarrow>
                                 (case execute_insert n i date status db of
                                    (Inl error, db') \<Rightarrow> (post_catch error, db')
                                  | (Inr insertId, db') \<Rightarrow>
                                      (recorded insertId employeeName employeeID date status,
                                       db')))))))"

section \<open>Numeric strings\<close>

text \<open>
  \<^verbatim>\<open>isNaN(id)\<close> converts the string to a number first, and the conversion gives
  \<^verbatim>\<open>NaN\<close> exactly when the string is not a \<open>StringNumericLiteral\<close>: optional white
  space around nothing at all, a signed decimal literal (digits with an optional
  fraction and exponent, or \<^verbatim>\<open>Infinity\<close>) or an unsigned binary, octal or hexadecimal
  integer literal.
\<close>

definition is_hex_digit :: "char \<Rightarrow> bool" where
  "is_hex_digit c = (c \<in> set ''0123456789abcdefABCDEF'')"

fun strip_sign :: "string \<Rightarrow> string" where
  "strip_sign [] = []"
| "strip_sign (c # s) = (if c = CHR ''+'' \<or> c = CHR ''-'' then s else c # s)"

text \<open>\<open>ExponentPart\<close>, or nothing.\<close>

fun is_exponent_opt :: "string \<Rightarrow> bool" where
  "is_exponent_opt [] = True"
| "is_exponent_opt (c # s) =
     ((c = CHR ''e'' \<or> c = CHR ''E'') \<and> strip_sign s \<noteq> [] \<and> list_all is_digit (strip_sign s))"

text \<open>\<open>StrUnsignedDecimalLiteral\<close>\<close>

definition is_unsigned_decimal :: "string \<Rightarrow> bool" where
  "is_unsigned_decimal u =
     (u = ''Infinity'' \<or>
      (let ip = takeWhile is_digit u; rest = dropWhile is_digit u
       in case rest of
            [] \<Rightarrow> ip \<noteq> []
          | c # r \<Rightarrow>
              if c = CHR ''.''
              then (ip \<noteq> [] \<or> takeWhile is_digit r \<noteq> []) \<and> is_exponent_opt (dropWhile is_digit r)
              else ip \<noteq> [] \<and> is_exponent_opt rest))"

text \<open>\<open>NonDecimalIntegerLiteral\<close>: \<^verbatim>\<open>0b\<close>, \<^verbatim>\<open>0o\<close> or \<^verbatim>\<open>0x\<close> and at least one digit.\<close>

fun is_non_decimal :: "string \<Rightarrow> bool" where
  "is_non_decimal (z # p # ds) =
     (z = CHR ''0'' \<and> ds \<noteq> [] \<and>
      (if p = CHR ''x'' \<or> p = CHR ''X'' then list_all is_hex_digit ds
       else if p = CHR ''o'' \<or> p = CHR ''O'' then list_all (\<lambda>c. c \<in> set ''01234567'') ds
       else if p = CHR ''b'' \<or> p = CHR ''B'' then list_all (\<lambda>c. c \<in> set ''01'') ds
       else False))"
| "is_non_decimal s = False"

definition is_numeric_literal :: "string \<Rightarrow> bool" where
  "is_numeric_literal s =
     (let t = trim s
      in t = [] \<or> is_non_decimal t \<or> is_unsigned_decimal (strip_sign t))"

definition isNaN :: "string \<Rightarrow> bool" where
  "isNaN s = (\<not> is_numeric_literal s)"

text \<open>The value of a digit in its radix, and of a run of digits.\<close>

definition digit_value :: "char \<Rightarrow> nat" where
  "digit_value c =
     (if is_digit c then of_char c - 48
      else if c \<in> set ''abcdef'' then of_char c - 87
      else of_char c - 55)"

definition radix_value :: "nat \<Rightarrow> string \<Rightarrow> nat" where
  "radix_value R Z = foldl (\<lambda>acc c. acc * R + digit_value c) 0 Z"

text \<open>
  A JavaScript number is a double: 53 significant bits. \<open>mantissa_shift n\<close> is the
  number of low bits of \<open>n\<close> that do not fit, 0 below \<open>2 ^ 53\<close>.
\<close>

function mantissa_shift :: "nat \<Rightarrow> nat" where
  "mantissa_shift n = (if n < 2 ^ 53 then 0 else Suc (mantissa_shift (n div 2)))"
  by pat_completeness auto
termination
  by (relation "measure id") auto

declare mantissa_shift.simps [simp del]

text \<open>
  The double nearest to a natural number, by its value: the bits that do not fit are
  rounded away, to the nearest multiple and on a tie to the even one. \<open>None\<close> is
  \<^verbatim>\<open>Infinity\<close>, the result from \<open>2 ^ 1024\<close> on.
\<close>

definition to_double :: "nat \<Rightarrow> nat option" where
  "to_double n =
     (let e = mantissa_shift n;
          q = n div 2 ^ e;
          r = n mod 2 ^ e;
          q' = (if 2 ^ e < 2 * r \<or> (2 * r = 2 ^ e \<and> odd q) then q + 1 else q);
          v = q' * 2 ^ e
      in if 2 ^ 1024 \<le> v then None else Some v)"

text \<open>
  \<^verbatim>\<open>parseInt(id)\<close> with no radix: leading white space and one sign are dropped, a
  \<^verbatim>\<open>0x\<close> prefix selects radix 16, and the longest run of digits of the radix is the
  value, \<^verbatim>\<open>NaN\<close> when that run is empty. The result is a number, so a value that 53
  bits do not hold is rounded to the nearest double, as the engine of Node.js rounds it:
  from the exact value of the digits.
\<close>

definition parseInt :: "string \<Rightarrow> number" where
  "parseInt str =
     (let S = trim_start str;
          sign = (if take 1 S = ''-'' then - 1 else 1 :: int);
          S1 = strip_sign S;
          hex = (take 2 S1 = ''0x'' \<or> take 2 S1 = ''0X'');
          R = (if hex then 16 else 10);
          S2 = (if hex then drop 2 S1 else S1);
          Z = takeWhile (if hex then is_hex_digit else is_digit) S2
      in if Z = [] then NaN
         else (case to_double (radix_value R Z) of
                 None \<Rightarrow> (if sign < 0 then NegInfinity else Infinity)
               | Some v \<Rightarrow> Finite (sign * int v)))"

section \<open>Deleting, unmatched routes, uncaught errors\<close>

definition invalid_id :: response where
  "invalid_id = json 400 [(''success'', Bool False), (''error'', Str ''Valid ID is required'')]"

definition record_not_found :: response where
  "record_not_found = json 404 [(''success'', Bool False), (''error'', Str ''Record not found'')]"

definition record_deleted :: response where
  "record_deleted =
     json 200 [(''success'', Bool True), (''message'', Str ''Record deleted successfully'')]"

text \<open>The \<^verbatim>\<open>catch\<close> block of the DELETE handler.\<close>

definition delete_catch :: "js_error \<Rightarrow> response" where
  "delete_catch error =
     json 500 [(''success'', Bool False),
               (''error'', Str ''Failed to delete record''),
               (''details'', Str (err_message error))]"

text \<open>
  \<^verbatim>\<open>app.delete('/api/attendance/:id', ...)\<close>; \<open>id_param\<close> is \<^verbatim>\<open>req.params.id\<close>, \<open>None\<close> when
  the parameter is \<^verbatim>\<open>undefined\<close>.
\<close>

definition delete_attendance :: "pool option \<Rightarrow> string option \<Rightarrow> store \<Rightarrow> response \<times> store" where
  "delete_attendance pool id_param db =
     (case pool of
        None \<Rightarrow> (not_connected, db)
      | Some _ \<Rightarrow>
          (case id_param of
             None \<Rightarrow> (invalid_id, db)
           | Some s \<Rightarrow>
               if s = [] \<or> isNaN s then (invalid_id, db)
               else
                 (case execute_delete (parseInt s) db of
                    (Inl error, db') \<Rightarrow> (delete_catch error, db')
                  | (Inr affectedRows, db') \<Rightarrow>
                      if affectedRows = 0 then (record_not_found, db')
                      else (record_deleted, db'))))"

text \<open>\<^verbatim>\<open>app.use('*', ...)\<close>, the handler of every request no route matched.\<close>

definition not_found :: "string \<Rightarrow> response" where
  "not_found originalUrl =
     json 404 [(''success'', Bool False),
               (''error'', Str (''Route '' @ originalUrl @ '' not found''))]"

text \<open>The global error handler, reached through \<^verbatim>\<open>next(error)\<close> of a middleware.\<close>

definition error_handler :: "js_error \<Rightarrow> response" where
  "error_handler error =
     json 500 [(''success'', Bool False),
               (''error'', Str ''Internal server error''),
               (''message'', Str (err_message error))]"

section \<open>CORS\<close>

text \<open>
  \<^verbatim>\<open>allowedOrigins\<close>: three fixed origins and \<^verbatim>\<open>process.env.FRONTEND_URL\<close>, after
  \<^verbatim>\<open>.filter(Boolean)\<close>.
\<close>

definition allowedOrigins :: "string option \<Rightarrow> jsval list" where
  "allowedOrigins FRONTEND_URL =
     filter truthy
       [Str ''http://localhost:3000'',
        Str ''https://attendance-tracker-frontend.vercel.app'',
        Str ''https://attendance-tracker.vercel.app'',
        (case FRONTEND_URL of None \<Rightarrow> Undefined | Some u \<Rightarrow> Str u)]"

text \<open>
  \<^verbatim>\<open>corsOptions.origin\<close>: the result is the error handed to the callback, \<open>None\<close> for
  \<^verbatim>\<open>callback(null, true)\<close>. \<open>origin\<close> is the request's \<^verbatim>\<open>Origin\<close> header,
  \<^verbatim>\<open>undefined\<close> when the request has none.
\<close>

definition cors_origin :: "string option \<Rightarrow> jsval \<Rightarrow> js_error option" where
  "cors_origin FRONTEND_URL origin =
     (if \<not> truthy origin then None
      else if origin \<in> set (allowedOrigins FRONTEND_URL) then None
      else Some (JsError None ''Not allowed by CORS''))"

fun header_value :: "string option \<Rightarrow> jsval" where
  "header_value None = Undefined"
| "header_value (Some s) = Str s"

section \<open>The application\<close>

text \<open>
  A request after the framework's routing: the route that matches it, the \<^verbatim>\<open>Origin\<close>
  header, and the outcome of the body parsers (the error they raised, or the parsed
  object). The middleware runs in the order of the \<^verbatim>\<open>app.use\<close> calls: CORS, the body
  parsers, the routes, the handler of unmatched routes; an error a middleware raises goes
  to the global error handler. Preflight requests, which the CORS middleware answers by
  itself, are not part of the model.
\<close>

datatype route =
    Health
  | ApiInfo
  | GetAttendance
  | PostAttendance
  | DeleteAttendance string
  | NoRoute string

record request =
  req_origin :: "string option"
  req_route :: route
  req_body :: "js_error + (string \<times> jsval) list"

definition app ::
  "string option \<Rightarrow> string \<Rightarrow> pool option \<Rightarrow> request \<Rightarrow> store \<Rightarrow> response \<times> store" where
  "app FRONTEND_URL now pool req db =
     (case cors_origin FRONTEND_URL (header_value (req_origin req)) of
        Some error \<Rightarrow> (error_handler error, db)
      | None \<Rightarrow>
          (case req_body req of
             Inl error \<Rightarrow> (error_handler error, db)
           | Inr body \<Rightarrow>
               (case req_route req of
                  Health \<Rightarrow> (health now, db)
                | ApiInfo \<Rightarrow> (api_info, db)
                | GetAttendance \<Rightarrow> get_attendance pool db
                | PostAttendance \<Rightarrow> post_attendance pool body db
                | DeleteAttendance id_param \<Rightarrow> delete_attendance pool (Some id_param) db
                | NoRoute originalUrl \<Rightarrow> (not_found originalUrl, db))))"

section \<open>Startup\<close>

text \<open>
  What one call of \<^verbatim>\<open>initDatabase\<close> meets: \<^verbatim>\<open>mysql.createPool\<close> throws, a later step
  throws (taking a connection, creating the table, releasing), or every step succeeds.
  The call returns whether it succeeded, and assigns \<^verbatim>\<open>pool\<close> as soon as
  \<^verbatim>\<open>createPool\<close> has returned.
\<close>

datatype init_outcome = CreatePoolThrows | ConnectionThrows | TableVerified

fun initDatabase :: "init_outcome \<Rightarrow> pool option \<Rightarrow> bool \<times> pool option" where
  "initDatabase CreatePoolThrows pool = (False, pool)"
| "initDatabase ConnectionThrows pool = (False, Some Pool)"
| "initDatabase TableVerified pool = (True, Some Pool)"

text \<open>
  What \<^verbatim>\<open>startServer\<close> does, in order: calls of \<^verbatim>\<open>initDatabase\<close>, \<^verbatim>\<open>app.listen\<close>,
  waits (in milliseconds) and \<^verbatim>\<open>process.exit\<close>.
\<close>

datatype event = InitDatabase | Listen | Sleep nat | Exit nat

definition maxRetries :: nat where
  "maxRetries = 3"

text \<open>
  The \<^verbatim>\<open>while (retries < maxRetries)\<close> loop. \<open>outcome k\<close> is what the call of
  \<^verbatim>\<open>initDatabase\<close> made after \<open>k\<close> failures meets.
\<close>

function startServer_loop ::
  "(nat \<Rightarrow> init_outcome) \<Rightarrow> nat \<Rightarrow> pool option \<Rightarrow> event list \<times> pool option" where
  "startServer_loop outcome retries pool =
     (if retries < maxRetries
      then
        (let r = initDatabase (outcome retries) pool
         in if fst r then ([InitDatabase, Listen], snd r)
            else if retries + 1 < maxRetries
            then (let rest = startServer_loop outcome (retries + 1) (snd r)
                  in ([InitDatabase, Sleep 5000] @ fst rest, snd rest))
            else ([InitDatabase, Exit 1], snd r))
      else ([], pool))"
  by pat_completeness auto
termination
  by (relation "measure (\<lambda>(outcome, retries, pool). maxRetries - retries)") auto

declare startServer_loop.simps [simp del]

definition startServer :: "(nat \<Rightarrow> init_outcome) \<Rightarrow> event list \<times> pool option" where
  "startServer outcome = startServer_loop outcome 0 None"

section \<open>The response envelope\<close>

text \<open>A body is in the envelope when it is an object with a boolean \<^verbatim>\<open>success\<close> property.\<close>

fun has_success :: "jsval \<Rightarrow> bool" where
  "has_success (Obj ps) = (case map_of ps ''success'' of Some (Bool b) \<Rightarrow> True | _ \<Rightarrow> False)"
| "has_success v = False"

section \<open>Concrete states\<close>

text \<open>An empty table and a table of three rows, for the examples.\<close>

definition fresh_store :: store where
  "fresh_store =
     \<lparr>table_rows = [], auto_increment = 1, clock = 100,
      rejects = (\<lambda>q. None), statements = []\<rparr>"

definition row12 :: row where
  "row12 = \<lparr>row_id = 12, row_employeeName = ''Alice Smith'', row_employeeID = ''E1'',
            row_date = ''2024-03-01'', row_status = ''Present'', row_created_at = 100\<rparr>"

definition row13 :: row where
  "row13 = \<lparr>row_id = 13, row_employeeName = ''Bob Jones'', row_employeeID = ''E2'',
            row_date = ''2024-03-02'', row_status = ''Absent'', row_created_at = 200\<rparr>"

definition row14 :: row where
  "row14 = \<lparr>row_id = 14, row_employeeName = ''Carol Diaz'', row_employeeID = ''E3'',
            row_date = ''2024-03-02'', row_status = ''Present'', row_created_at = 260\<rparr>"

definition small_store :: store where
  "small_store =
     \<lparr>table_rows = [row12, row13, row14], auto_increment = 15, clock = 300,
      rejects = (\<lambda>q. None), statements = []\<rparr>"

section \<open>The specification's wording\<close>

text \<open>
  The order of the listing on the stored values: the greater \<^verbatim>\<open>date\<close> first and, on
  equal dates, the greater \<^verbatim>\<open>created_at\<close> first.
\<close>

definition listed_before :: "row \<Rightarrow> row \<Rightarrow> bool" where
  "listed_before a b =
     (row_date b < row_date a \<or> (row_date a = row_date b \<and> row_created_at b \<le> row_created_at a))"

text \<open>
  The CORS decision as the specification words it: no \<^verbatim>\<open>Origin\<close> header, or an
  \<^verbatim>\<open>Origin\<close> that is a member of the allow-list of three fixed origins and
  \<^verbatim>\<open>FRONTEND_URL\<close> when it is set.
\<close>

definition cors_spec :: "string option \<Rightarrow> string option \<Rightarrow> bool" where
  "cors_spec FRONTEND_URL origin =
     (case origin of
        None \<Rightarrow> True
      | Some v \<Rightarrow>
          v \<in> set ([''http://localhost:3000'',
                    ''https://attendance-tracker-frontend.vercel.app'',
                    ''https://attendance-tracker.vercel.app'']
                   @ (case FRONTEND_URL of None \<Rightarrow> [] | Some u \<Rightarrow> [u])))"

text \<open>
  A numeric id in the plain sense of the word, the text of a number: an optional sign,
  decimal digits, and an optional fraction of a point and decimal digits.
\<close>

definition is_number_text :: "string \<Rightarrow> bool" where
  "is_number_text s =
     (let u = strip_sign s
      in takeWhile is_digit u \<noteq> [] \<and>
         (case dropWhile is_digit u of
            [] \<Rightarrow> True
          | c # fraction \<Rightarrow> c = CHR ''.'' \<and> fraction \<noteq> [] \<and> list_all is_digit fraction))"

text \<open>
  The table's primary key: no two rows share an id, and every id was handed out by
  \<^verbatim>\<open>AUTO_INCREMENT\<close> before.
\<close>

definition primary_key :: "store \<Rightarrow> bool" where
  "primary_key db =
     (distinct (map row_id (table_rows db)) \<and>
      list_all (\<lambda>r. row_id r < auto_increment db) (table_rows db))"

text \<open>The calendar date a \<^verbatim>\<open>YYYY-MM-DD\<close> text stands for: year, month and day.\<close>

definition date_value :: "string \<Rightarrow> nat \<times> nat \<times> nat" where
  "date_value s =
     (radix_value 10 (take 4 s), radix_value 10 (take 2 (drop 5 s)), radix_value 10 (drop 8 s))"

text \<open>
  The order of the listing by the calendar: a later day first and, on one day, the later
  insertion first.
\<close>

definition calendar_before :: "row \<Rightarrow> row \<Rightarrow> bool" where
  "calendar_before a b =
     (date_value (row_date b) < date_value (row_date a)
      \<or> (date_value (row_date a) = date_value (row_date b)
          \<and> row_created_at b \<le> row_created_at a))"

text \<open>Every stored date has the form the POST handler demands.\<close>

definition dates_wellformed :: "store \<Rightarrow> bool" where
  "dates_wellformed db = list_all (\<lambda>r. is_ymd_lexical (row_date r)) (table_rows db)"

section \<open>The date pattern and the specification's wording\<close>

lemma match_rep_take_drop:
  "match_rep a n s =
     (if n \<le> length s \<and> list_all (atom_matches a) (take n s) then Some (drop n s) else None)"
proof (induction a n s rule: match_rep.induct)
  case (1 a s)
  show ?case by simp
next
  case (2 a n)
  show ?case by simp
next
  case (3 a n c s)
  then show ?case by simp
qed

lemma atom_matches_digit: "atom_matches DigitCls = is_digit"
  by (rule ext) simp

lemma take1_drop: "n < length s \<Longrightarrow> take (Suc 0) (drop n s) = [s ! n]"
  by (simp add: take_Suc_conv_app_nth)

lemma dateRegex_lexical: "regex_test dateRegex (Str s) = Inr (is_ymd_lexical s)"
proof (cases "length s = 10")
  case True
  then show ?thesis
    by (simp add: regex_test_def dateRegex_def is_ymd_lexical_def match_rep_take_drop
        take1_drop atom_matches_digit)
next
  case False
  then show ?thesis
    by (auto simp: regex_test_def dateRegex_def is_ymd_lexical_def match_rep_take_drop
        atom_matches_digit split: if_splits)
qed

section \<open>Creating a record\<close>

lemma post_catch_not_validation:
  "post_catch e \<noteq> status_invalid" "post_catch e \<noteq> date_invalid"
  by (simp_all add: post_catch_def status_invalid_def date_invalid_def json_def)

lemma recorded_not_validation:
  "recorded k a b c d \<noteq> status_invalid" "recorded k a b c d \<noteq> date_invalid"
  by (simp_all add: recorded_def status_invalid_def date_invalid_def json_def)

lemma validation_distinct:
  "date_invalid \<noteq> status_invalid" "fields_required \<noteq> status_invalid"
  "fields_required \<noteq> date_invalid"
  by (simp_all add: fields_required_def status_invalid_def date_invalid_def json_def)

text \<open>
  Once the checks for presence and status have passed and the date is not refused, the
  response is the \<^verbatim>\<open>catch\<close> block's or the 201 with the fields as received.
\<close>

lemma post_validated_cases:
  assumes "pool = Some p"
    and "truthy (get_prop body ''employeeName'')" and "truthy (get_prop body ''employeeID'')"
    and "truthy (get_prop body ''date'')"
    and "get_prop body ''status'' \<in> {Str ''Present'', Str ''Absent''}"
    and "regex_test dateRegex (get_prop body ''date'') \<noteq> Inr False"
  shows "(\<exists>e. fst (post_attendance pool body db) = post_catch e) \<or>
         (\<exists>k. fst (post_attendance pool body db) =
            recorded k (get_prop body ''employeeName'') (get_prop body ''employeeID'')
              (get_prop body ''date'') (get_prop body ''status''))"
  using assms
  by (auto simp: post_attendance_def Let_def split: sum.splits prod.splits)

text \<open>
  C2. The server listens only once the pool exists, and a body contains a field when the
  field is truthy, which is what the handler's first check demands. For such a POST
  request, a \<^verbatim>\<open>status\<close> that is neither the string \<^verbatim>\<open>Present\<close> nor the string
  \<^verbatim>\<open>Absent\<close> is answered with the 400 response \<open>status_invalid\<close>, and the store is left
  as it was: no statement is executed and no row is added. A \<^verbatim>\<open>status\<close> that is one
  of the two strings is never answered with that response.
\<close>

theorem post_status_check:
  assumes "pool = Some p"
    and "truthy (get_prop body ''employeeName'')" and "truthy (get_prop body ''employeeID'')"
    and "truthy (get_prop body ''date'')" and "truthy (get_prop body ''status'')"
  shows "(get_prop body ''status'' \<noteq> Str ''Present'' \<and> get_prop body ''status'' \<noteq> Str ''Absent''
            \<longrightarrow> post_attendance pool body db = (status_invalid, db)
                \<and> res_status status_invalid = 400)
       \<and> (get_prop body ''status'' = Str ''Present'' \<or> get_prop body ''status'' = Str ''Absent''
            \<longrightarrow> fst (post_attendance pool body db) \<noteq> status_invalid)"
proof (rule conjI; rule impI)
  assume "get_prop body ''status'' \<noteq> Str ''Present'' \<and> get_prop body ''status'' \<noteq> Str ''Absent''"
  with assms
  show "post_attendance pool body db = (status_invalid, db) \<and> res_status status_invalid = 400"
    by (simp add: post_attendance_def Let_def status_invalid_def json_def)
next
  assume st: "get_prop body ''status'' = Str ''Present'' \<or> get_prop body ''status'' = Str ''Absent''"
  show "fst (post_attendance pool body db) \<noteq> status_invalid"
  proof (cases "regex_test dateRegex (get_prop body ''date'') = Inr False")
    case False
    with assms st post_validated_cases [of pool p body db] show ?thesis
      by (auto simp: post_catch_not_validation recorded_not_validation)
  next
    case True
    with assms st have "post_attendance pool body db = (date_invalid, db)"
      by (auto simp: post_attendance_def Let_def)
    then show ?thesis by (simp add: validation_distinct)
  qed
qed

text \<open>The lowercase \<^verbatim>\<open>present\<close> is refused, \<^verbatim>\<open>Absent\<close> passes the check.\<close>

theorem post_status_check_witness:
  "post_attendance (Some Pool)
     [(''employeeName'', Str ''Alice Smith''), (''employeeID'', Str ''E1''),
      (''date'', Str ''2024-03-01''), (''status'', Str ''present'')] fresh_store
     = (status_invalid, fresh_store)
   \<and> res_status status_invalid = 400
   \<and> fst (post_attendance (Some Pool)
     [(''employeeName'', Str ''Alice Smith''), (''employeeID'', Str ''E1''),
      (''date'', Str ''2024-03-01''), (''status'', Str ''Absent'')] fresh_store)
     \<noteq> status_invalid"
proof -
  let ?lower = "[(''employeeName'', Str ''Alice Smith''), (''employeeID'', Str ''E1''),
      (''date'', Str ''2024-03-01''), (''status'', Str ''present'')]"
  let ?absent = "[(''employeeName'', Str ''Alice Smith''), (''employeeID'', Str ''E1''),
      (''date'', Str ''2024-03-01''), (''status'', Str ''Absent'')]"
  have l: "truthy (get_prop ?lower ''employeeName'')" "truthy (get_prop ?lower ''employeeID'')"
    "truthy (get_prop ?lower ''date'')" "truthy (get_prop ?lower ''status'')"
    by (simp_all add: get_prop_def)
  have a: "truthy (get_prop ?absent ''employeeName'')" "truthy (get_prop ?absent ''employeeID'')"
    "truthy (get_prop ?absent ''date'')" "truthy (get_prop ?absent ''status'')"
    by (simp_all add: get_prop_def)
  have ls: "get_prop ?lower ''status'' \<noteq> Str ''Present'' \<and> get_prop ?lower ''status'' \<noteq> Str ''Absent''"
    by (simp add: get_prop_def)
  have as: "get_prop ?absent ''status'' = Str ''Present'' \<or> get_prop ?absent ''status'' = Str ''Absent''"
    by (simp add: get_prop_def)
  from post_status_check [OF refl l, of Pool fresh_store] ls
       post_status_check [OF refl a, of Pool fresh_store] as
  show ?thesis by blast
qed

text \<open>
  C3. For a POST request that has passed the presence and status checks and whose
  \<^verbatim>\<open>date\<close> is a string, the answer is the 400 response \<open>date_invalid\<close> exactly when the
  date is not four digits, dash, two digits, dash, two digits; a refused request leaves
  the store as it was. No calendar check takes part.
\<close>

theorem post_date_check:
  assumes "pool = Some p"
    and "truthy (get_prop body ''employeeName'')" and "truthy (get_prop body ''employeeID'')"
    and "get_prop body ''status'' = Str ''Present'' \<or> get_prop body ''status'' = Str ''Absent''"
    and "get_prop body ''date'' = Str d" and "d \<noteq> []"
  shows "(fst (post_attendance pool body db) = date_invalid) = (\<not> is_ymd_lexical d)
       \<and> (\<not> is_ymd_lexical d \<longrightarrow> snd (post_attendance pool body db) = db)
       \<and> res_status date_invalid = 400"
proof (cases "is_ymd_lexical d")
  case True
  with assms have ok: "regex_test dateRegex (get_prop body ''date'') \<noteq> Inr False"
    by (simp add: dateRegex_lexical)
  with assms post_validated_cases [of pool p body db]
  have "fst (post_attendance pool body db) \<noteq> date_invalid"
    by (auto simp: post_catch_not_validation recorded_not_validation)
  with True show ?thesis by (simp add: date_invalid_def json_def)
next
  case False
  with assms have "regex_test dateRegex (get_prop body ''date'') = Inr False"
    by (simp add: dateRegex_lexical)
  with assms have "post_attendance pool body db = (date_invalid, db)"
    by (auto simp: post_attendance_def Let_def)
  with False show ?thesis by (simp add: date_invalid_def json_def)
qed

text \<open>
  \<^verbatim>\<open>01/02/2024\<close> is a date in another format and is refused; \<^verbatim>\<open>2024-99-99\<close> is no
  calendar date and passes.
\<close>

theorem post_date_check_witness:
  "fst (post_attendance (Some Pool)
     [(''employeeName'', Str ''Alice Smith''), (''employeeID'', Str ''E1''),
      (''date'', Str ''01/02/2024''), (''status'', Str ''Present'')] fresh_store) = date_invalid
   \<and> snd (post_attendance (Some Pool)
     [(''employeeName'', Str ''Alice Smith''), (''employeeID'', Str ''E1''),
      (''date'', Str ''01/02/2024''), (''status'', Str ''Present'')] fresh_store) = fresh_store
   \<and> \<not> is_ymd_lexical ''01/02/2024''
   \<and> fst (post_attendance (Some Pool)
     [(''employeeName'', Str ''Alice Smith''), (''employeeID'', Str ''E1''),
      (''date'', Str ''2024-99-99''), (''status'', Str ''Present'')] fresh_store) \<noteq> date_invalid
   \<and> is_ymd_lexical ''2024-99-99''"
proof -
  let ?slash = "[(''employeeName'', Str ''Alice Smith''), (''employeeID'', Str ''E1''),
      (''date'', Str ''01/02/2024''), (''status'', Str ''Present'')]"
  let ?nines = "[(''employeeName'', Str ''Alice Smith''), (''employeeID'', Str ''E1''),
      (''date'', Str ''2024-99-99''), (''status'', Str ''Present'')]"
  have s: "truthy (get_prop ?slash ''employeeName'')" "truthy (get_prop ?slash ''employeeID'')"
    "get_prop ?slash ''status'' = Str ''Present'' \<or> get_prop ?slash ''status'' = Str ''Absent''"
    "get_prop ?slash ''date'' = Str ''01/02/2024''" "''01/02/2024'' \<noteq> []"
    by (simp_all add: get_prop_def)
  have n: "truthy (get_prop ?nines ''employeeName'')" "truthy (get_prop ?nines ''employeeID'')"
    "get_prop ?nines ''status'' = Str ''Present'' \<or> get_prop ?nines ''status'' = Str ''Absent''"
    "get_prop ?nines ''date'' = Str ''2024-99-99''" "''2024-99-99'' \<noteq> []"
    by (simp_all add: get_prop_def)
  have bad: "\<not> is_ymd_lexical ''01/02/2024''"
    by (simp add: is_ymd_lexical_def is_digit_def)
  have good: "is_ymd_lexical ''2024-99-99''"
    by (simp add: is_ymd_lexical_def is_digit_def)
  from post_date_check [OF refl s, of Pool fresh_store] bad
       post_date_check [OF refl n, of Pool fresh_store] good
  show ?thesis by blast
qed

text \<open>
  C4. A POST request whose four fields are strings that pass the three checks, and whose
  insert the store does not reject, adds one row: its \<^verbatim>\<open>employeeName\<close> and
  \<^verbatim>\<open>employeeID\<close> are the trimmed inputs, its id is the store's next
  \<^verbatim>\<open>AUTO_INCREMENT\<close> value. The answer has status 201 and the body
  \<^verbatim>\<open>{success: true, message, id, data}\<close>, where \<^verbatim>\<open>id\<close> is the id the store gave the
  row and \<^verbatim>\<open>data\<close> holds the four fields as they were received, untrimmed.
\<close>

theorem post_inserts_trimmed:
  assumes "pool = Some p"
    and "get_prop body ''employeeName'' = Str n" and "n \<noteq> []"
    and "get_prop body ''employeeID'' = Str i" and "i \<noteq> []"
    and "get_prop body ''date'' = Str d" and "is_ymd_lexical d"
    and "get_prop body ''status'' = Str st" and "st = ''Present'' \<or> st = ''Absent''"
    and "rejects db (InsertRow (trim n) (trim i) (Str d) (Str st)) = None"
  shows "post_attendance pool body db =
           (\<lparr>res_status = 201,
             res_body =
               Obj [(''success'', Bool True),
                    (''message'', Str ''Attendance recorded successfully''),
                    (''id'', Num (auto_increment db)),
                    (''data'',
                     Obj [(''employeeName'', Str n), (''employeeID'', Str i),
                          (''date'', Str d), (''status'', Str st)])]\<rparr>,
            db\<lparr>statements := statements db @ [InsertRow (trim n) (trim i) (Str d) (Str st)],
               table_rows := table_rows db @
                 [\<lparr>row_id = auto_increment db, row_employeeName = trim n,
                   row_employeeID = trim i, row_date = d, row_status = st,
                   row_created_at = clock db\<rparr>],
               auto_increment := auto_increment db + 1\<rparr>)"
proof -
  from assms have d: "d \<noteq> []" by (auto simp: is_ymd_lexical_def)
  from assms have re: "regex_test dateRegex (Str d) = Inr True" by (simp add: dateRegex_lexical)
  from assms d re show ?thesis
    by (auto simp: post_attendance_def Let_def execute_insert_def recorded_def json_def)
qed

text \<open>The specification's example: \<^verbatim>\<open>"Alice Smith "\<close> and \<^verbatim>\<open>" E1 "\<close>.\<close>

theorem post_inserts_trimmed_witness:
  "post_attendance (Some Pool)
     [(''employeeName'', Str ''Alice Smith ''), (''employeeID'', Str '' E1 ''),
      (''date'', Str ''2024-03-01''), (''status'', Str ''Present'')] fresh_store =
     (\<lparr>res_status = 201,
       res_body =
         Obj [(''success'', Bool True),
              (''message'', Str ''Attendance recorded successfully''),
              (''id'', Num 1),
              (''data'',
               Obj [(''employeeName'', Str ''Alice Smith ''), (''employeeID'', Str '' E1 ''),
                    (''date'', Str ''2024-03-01''), (''status'', Str ''Present'')])]\<rparr>,
      \<lparr>table_rows =
         [\<lparr>row_id = 1, row_employeeName = ''Alice Smith'', row_employeeID = ''E1'',
           row_date = ''2024-03-01'', row_status = ''Present'', row_created_at = 100\<rparr>],
       auto_increment = 2, clock = 100, rejects = (\<lambda>q. None),
       statements = [InsertRow ''Alice Smith'' ''E1'' (Str ''2024-03-01'') (Str ''Present'')]\<rparr>)"
proof -
  let ?b = "[(''employeeName'', Str ''Alice Smith ''), (''employeeID'', Str '' E1 ''),
      (''date'', Str ''2024-03-01''), (''status'', Str ''Present'')]"
  have f: "get_prop ?b ''employeeName'' = Str ''Alice Smith ''" "''Alice Smith '' \<noteq> []"
    "get_prop ?b ''employeeID'' = Str '' E1 ''" "'' E1 '' \<noteq> []"
    "get_prop ?b ''date'' = Str ''2024-03-01''" "is_ymd_lexical ''2024-03-01''"
    "get_prop ?b ''status'' = Str ''Present''" "''Present'' = ''Present'' \<or> ''Present'' = ''Absent''"
    "rejects fresh_store
       (InsertRow (trim ''Alice Smith '') (trim '' E1 '') (Str ''2024-03-01'') (Str ''Present''))
     = None"
    by (simp_all add: get_prop_def is_ymd_lexical_def is_digit_def fresh_store_def)
  have t: "trim ''Alice Smith '' = ''Alice Smith''" "trim '' E1 '' = ''E1''"
    by (simp_all add: trim_def is_space_def)
  from post_inserts_trimmed [OF refl f, of Pool] show ?thesis
    by (simp add: t fresh_store_def)
qed

text \<open>
  C5. A name of three spaces is truthy, so it passes the check for required fields; it
  is trimmed afterwards, and the row is stored with the empty string as its
  \<^verbatim>\<open>employeeName\<close>.
\<close>

theorem post_blank_name_stored:
  "post_attendance (Some Pool)
     [(''employeeName'', Str ''   ''), (''employeeID'', Str ''E1''),
      (''date'', Str ''2024-03-01''), (''status'', Str ''Present'')] fresh_store =
     (recorded 1 (Str ''   '') (Str ''E1'') (Str ''2024-03-01'') (Str ''Present''),
      \<lparr>table_rows =
         [\<lparr>row_id = 1, row_employeeName = [], row_employeeID = ''E1'',
           row_date = ''2024-03-01'', row_status = ''Present'', row_created_at = 100\<rparr>],
       auto_increment = 2, clock = 100, rejects = (\<lambda>q. None),
       statements = [InsertRow [] ''E1'' (Str ''2024-03-01'') (Str ''Present'')]\<rparr>)"
  by (simp add: post_attendance_def get_prop_def Let_def regex_test_def dateRegex_def
      is_digit_def match_rep_take_drop execute_insert_def fresh_store_def trim_def is_space_def
      recorded_def json_def)

theorem post_blank_name_stored_witness:
  "map row_employeeName (table_rows (snd (post_attendance (Some Pool)
     [(''employeeName'', Str ''   ''), (''employeeID'', Str ''E1''),
      (''date'', Str ''2024-03-01''), (''status'', Str ''Present'')] fresh_store))) = [[]]"
  using post_blank_name_stored by simp

section \<open>Invariants of the table\<close>

lemma fresh_store_invariants: "primary_key fresh_store" "dates_wellformed fresh_store"
  by (simp_all add: primary_key_def dates_wellformed_def fresh_store_def)

lemma insert_primary_key:
  assumes "primary_key db"
  shows "primary_key (snd (execute_insert n i d s db))"
proof -
  from assms have ids: "\<forall>r \<in> set (table_rows db). row_id r < auto_increment db"
    and dist: "distinct (map row_id (table_rows db))"
    by (simp_all add: primary_key_def list_all_iff)
  from ids have "auto_increment db \<notin> row_id ` set (table_rows db)" by auto
  with ids dist show ?thesis
    by (auto simp: execute_insert_def Let_def primary_key_def list_all_iff
        split: option.splits jsval.splits)
qed

lemma delete_primary_key:
  assumes "primary_key db"
  shows "primary_key (snd (execute_delete k db))"
  using assms
  by (auto simp: execute_delete_def Let_def primary_key_def list_all_iff distinct_map_filter
      split: option.splits)

lemma select_primary_key: "primary_key (snd (execute_select db)) = primary_key db"
  by (simp add: execute_select_def Let_def primary_key_def split: option.splits)

lemma insert_dates_wellformed:
  assumes "dates_wellformed db" and "regex_test dateRegex d = Inr True"
  shows "dates_wellformed (snd (execute_insert n i d s db))"
proof (cases d)
  case (Str ds)
  with assms(2) have "is_ymd_lexical ds" by (simp add: dateRegex_lexical)
  with assms(1) Str show ?thesis
    by (auto simp: execute_insert_def Let_def dates_wellformed_def
        split: option.splits jsval.splits)
qed (use assms(1) in \<open>auto simp: execute_insert_def Let_def dates_wellformed_def
        split: option.splits\<close>)

lemma delete_dates_wellformed:
  "dates_wellformed db \<Longrightarrow> dates_wellformed (snd (execute_delete k db))"
  by (auto simp: execute_delete_def Let_def dates_wellformed_def list_all_iff
      split: option.splits)

text \<open>A handler leaves the store alone or executes its one statement.\<close>

lemma get_store:
  "snd (get_attendance pool db) = db \<or> snd (get_attendance pool db) = snd (execute_select db)"
  by (simp add: get_attendance_def split: option.splits sum.splits prod.splits)

lemma delete_store:
  "snd (delete_attendance pool i db) = db \<or>
   (\<exists>k. snd (delete_attendance pool i db) = snd (execute_delete k db))"
  by (auto simp: delete_attendance_def split: option.splits sum.splits prod.splits)
     (metis snd_conv)+

lemma post_store:
  "snd (post_attendance pool body db) = db \<or>
   (\<exists>n i s. snd (post_attendance pool body db)
      = snd (execute_insert n i (get_prop body ''date'') s db)
    \<and> regex_test dateRegex (get_prop body ''date'') = Inr True)"
proof (cases "\<exists>p n i. pool = Some p
    \<and> truthy (get_prop body ''employeeName'') \<and> truthy (get_prop body ''employeeID'')
    \<and> truthy (get_prop body ''date'') \<and> truthy (get_prop body ''status'')
    \<and> get_prop body ''status'' \<in> {Str ''Present'', Str ''Absent''}
    \<and> regex_test dateRegex (get_prop body ''date'') = Inr True
    \<and> call_trim ''employeeName'' (get_prop body ''employeeName'') = Inr n
    \<and> call_trim ''employeeID'' (get_prop body ''employeeID'') = Inr i")
  case True
  then obtain p n i where ok: "pool = Some p"
    "truthy (get_prop body ''employeeName'')" "truthy (get_prop body ''employeeID'')"
    "truthy (get_prop body ''date'')" "truthy (get_prop body ''status'')"
    "get_prop body ''status'' \<in> {Str ''Present'', Str ''Absent''}"
    "regex_test dateRegex (get_prop body ''date'') = Inr True"
    "call_trim ''employeeName'' (get_prop body ''employeeName'') = Inr n"
    "call_trim ''employeeID'' (get_prop body ''employeeID'') = Inr i"
    by blast
  then have "snd (post_attendance pool body db)
      = snd (execute_insert n i (get_prop body ''date'') (get_prop body ''status'') db)"
    by (simp add: post_attendance_def Let_def split: prod.splits sum.splits)
  with ok(7) show ?thesis by blast
next
  case False
  then have "snd (post_attendance pool body db) = db"
    by (cases pool; cases "regex_test dateRegex (get_prop body ''date'')";
        cases "call_trim ''employeeName'' (get_prop body ''employeeName'')";
        cases "call_trim ''employeeID'' (get_prop body ''employeeID'')")
       (auto simp: post_attendance_def Let_def)
  then show ?thesis by blast
qed

lemma app_store:
  "snd (app FRONTEND_URL now pool req db) = db
   \<or> snd (app FRONTEND_URL now pool req db) = snd (execute_select db)
   \<or> (\<exists>k. snd (app FRONTEND_URL now pool req db) = snd (execute_delete k db))
   \<or> (\<exists>n i d s. snd (app FRONTEND_URL now pool req db) = snd (execute_insert n i d s db)
        \<and> regex_test dateRegex d = Inr True)"
proof (cases "cors_origin FRONTEND_URL (header_value (req_origin req))")
  case (Some e)
  then show ?thesis by (simp add: app_def)
next
  case None
  show ?thesis
  proof (cases "req_body req")
    case (Inl e)
    with None show ?thesis by (simp add: app_def)
  next
    case (Inr body)
    show ?thesis
    proof (cases "req_route req")
      case GetAttendance
      with None Inr get_store [of pool db] show ?thesis by (auto simp: app_def)
    next
      case PostAttendance
      with None Inr post_store [of pool body db] show ?thesis
        by (simp add: app_def) blast
    next
      case (DeleteAttendance i)
      with None Inr delete_store [of pool "Some i" db] show ?thesis by (auto simp: app_def)
    qed (use None Inr in \<open>simp_all add: app_def\<close>)
  qed
qed

text \<open>Every request leaves both invariants in place.\<close>

lemma app_invariants:
  assumes "primary_key db" and "dates_wellformed db"
  shows "primary_key (snd (app FRONTEND_URL now pool req db))"
    and "dates_wellformed (snd (app FRONTEND_URL now pool req db))"
proof -
  have sel: "dates_wellformed (snd (execute_select db))"
    using assms(2)
    by (simp add: execute_select_def Let_def dates_wellformed_def split: option.splits)
  from app_store [of FRONTEND_URL now pool req db] assms(1)
  show "primary_key (snd (app FRONTEND_URL now pool req db))"
    by (auto simp: select_primary_key insert_primary_key delete_primary_key)
  from app_store [of FRONTEND_URL now pool req db] assms(2) sel
  show "dates_wellformed (snd (app FRONTEND_URL now pool req db))"
    by (auto simp: insert_dates_wellformed delete_dates_wellformed)
qed

section \<open>Dates in text order and in calendar order\<close>

lemma digit_code: "is_digit c \<Longrightarrow> 48 \<le> (of_char c :: nat) \<and> (of_char c :: nat) \<le> 57"
  by (auto simp: is_digit_def)

lemma digit_value_digit: "is_digit c \<Longrightarrow> digit_value c = of_char c - 48"
  by (simp add: digit_value_def)

lemma digit_order:
  assumes "is_digit c" and "is_digit d"
  shows "(c < d) = (digit_value c < digit_value d)" and "(c = d) = (digit_value c = digit_value d)"
proof -
  note c = digit_code [OF assms(1)] and d = digit_code [OF assms(2)]
  have lt: "(c < d) = ((of_char c :: nat) < of_char d)" by (simp only: less_char_def)
  have eq: "(c = d) = ((of_char c :: nat) = of_char d)" by simp
  from c d show "(c < d) = (digit_value c < digit_value d)"
    unfolding lt digit_value_digit [OF assms(1)] digit_value_digit [OF assms(2)] by arith
  from c d show "(c = d) = (digit_value c = digit_value d)"
    unfolding eq digit_value_digit [OF assms(1)] digit_value_digit [OF assms(2)] by arith
qed

lemma foldl_radix:
  "foldl (\<lambda>acc c. acc * R + digit_value c) a cs
     = a * R ^ length cs + foldl (\<lambda>acc c. acc * R + digit_value c) 0 cs"
proof -
  define f where "f = (\<lambda>acc c. acc * R + digit_value c)"
  have "foldl f a cs = a * R ^ length cs + foldl f 0 cs"
  proof (induction cs arbitrary: a)
    case Nil
    show ?case by simp
  next
    case (Cons c cs)
    have "foldl f a (c # cs) = foldl f (a * R + digit_value c) cs"
      by (simp add: f_def)
    also have "\<dots> = (a * R + digit_value c) * R ^ length cs + foldl f 0 cs"
      by (rule Cons.IH)
    finally have l: "foldl f a (c # cs) = (a * R + digit_value c) * R ^ length cs + foldl f 0 cs" .
    have "foldl f 0 (c # cs) = foldl f (digit_value c) cs"
      by (simp add: f_def)
    also have "\<dots> = digit_value c * R ^ length cs + foldl f 0 cs"
      by (rule Cons.IH)
    finally have r: "foldl f 0 (c # cs) = digit_value c * R ^ length cs + foldl f 0 cs" .
    show ?case unfolding l r by (simp add: algebra_simps)
  qed
  then show ?thesis by (simp add: f_def)
qed

lemma radix_value_Cons:
  "radix_value R (c # cs) = digit_value c * R ^ length cs + radix_value R cs"
  by (simp add: radix_value_def foldl_radix [of R "digit_value c"])

lemma radix_value_bound:
  "list_all is_digit cs \<Longrightarrow> radix_value 10 cs < 10 ^ length cs"
proof (induction cs)
  case Nil
  show ?case by (simp add: radix_value_def)
next
  case (Cons c cs)
  then have c: "is_digit c" and v: "radix_value 10 cs < 10 ^ length cs" by simp_all
  from digit_code [OF c] have "digit_value c \<le> 9"
    unfolding digit_value_digit [OF c] by arith
  then have m: "digit_value c * 10 ^ length cs \<le> 9 * 10 ^ length cs"
    by (rule mult_le_mono1)
  have "radix_value 10 (c # cs) = digit_value c * 10 ^ length cs + radix_value 10 cs"
    by (rule radix_value_Cons)
  also from m v have "\<dots> < 10 * 10 ^ length cs" by arith
  finally show ?case by simp
qed

lemma digit_place:
  fixes x y a b P :: nat
  assumes "a < P" and "b < P"
  shows "(x * P + a < y * P + b) = (x < y \<or> (x = y \<and> a < b))"
    and "(x * P + a = y * P + b) = (x = y \<and> a = b)"
proof -
  have up: "u * P + a < v * P + b" if "u < v" and "a < P" for u v a b :: nat
  proof -
    from that have "Suc u * P \<le> v * P" by (intro mult_le_mono1) simp
    with that show ?thesis by simp
  qed
  show "(x * P + a < y * P + b) = (x < y \<or> (x = y \<and> a < b))"
    using up [of x y a b] up [of y x b a] assms
    by (cases x y rule: linorder_cases) auto
  show "(x * P + a = y * P + b) = (x = y \<and> a = b)"
    using up [of x y a b] up [of y x b a] assms
    by (cases x y rule: linorder_cases) auto
qed

lemma digits_order:
  assumes "length xs = length ys" and "list_all is_digit xs" and "list_all is_digit ys"
  shows "(xs < ys) = (radix_value 10 xs < radix_value 10 ys)
       \<and> (xs = ys) = (radix_value 10 xs = radix_value 10 ys)"
  using assms
proof (induction xs ys rule: list_induct2)
  case Nil
  show ?case by (simp add: radix_value_def)
next
  case (Cons x xs y ys)
  then have b: "radix_value 10 xs < 10 ^ length ys" "radix_value 10 ys < 10 ^ length ys"
    using radix_value_bound [of xs] radix_value_bound [of ys] by simp_all
  from Cons have d: "is_digit x" "is_digit y" by simp_all
  from Cons have ih: "(xs < ys) = (radix_value 10 xs < radix_value 10 ys)"
    "(xs = ys) = (radix_value 10 xs = radix_value 10 ys)" by simp_all
  show ?case
    using Cons.hyps
    by (simp add: radix_value_Cons digit_place [OF b] digit_order [OF d] ih)
qed

lemma append_less:
  "length xs = length ys \<Longrightarrow>
     (xs @ us < ys @ vs) = (xs < ys \<or> (xs = ys \<and> us < vs))"
  for xs ys us vs :: string
  by (induction xs ys rule: list_induct2) auto

lemma ymd_parts:
  assumes "is_ymd_lexical s"
  shows "s = take 4 s @ CHR ''-'' # take 2 (drop 5 s) @ CHR ''-'' # drop 8 s"
proof -
  from assms have l: "length s = 10" and d: "s ! 4 = CHR ''-''" "s ! 7 = CHR ''-''"
    by (simp_all add: is_ymd_lexical_def)
  from l Cons_nth_drop_Suc [of 4 s] d have a: "drop 4 s = CHR ''-'' # drop 5 s" by simp
  from l Cons_nth_drop_Suc [of 7 s] d have b: "drop 7 s = CHR ''-'' # drop 8 s" by simp
  have "s = take 4 s @ drop 4 s" by simp
  also note a
  also have "drop 5 s = take 2 (drop 5 s) @ drop 2 (drop 5 s)"
    by (rule append_take_drop_id [symmetric])
  also have "drop 2 (drop 5 s) = drop 7 s" by simp
  also note b
  finally show ?thesis .
qed

text \<open>
  On dates of the form the POST handler demands, the order of the texts is the order of
  the calendar.
\<close>

lemma ymd_order:
  assumes "is_ymd_lexical a" and "is_ymd_lexical b"
  shows "(a < b) = (date_value a < date_value b)" and "(a = b) = (date_value a = date_value b)"
proof -
  let ?y = "\<lambda>s::string. take 4 s" and ?m = "\<lambda>s::string. take 2 (drop 5 s)"
    and ?d = "\<lambda>s::string. drop 8 s"
  from assms have len: "length (?y a) = length (?y b)" "length (?m a) = length (?m b)"
    "length (?d a) = length (?d b)"
    by (simp_all add: is_ymd_lexical_def)
  from assms have dig: "list_all is_digit (?y a)" "list_all is_digit (?y b)"
    "list_all is_digit (?m a)" "list_all is_digit (?m b)"
    "list_all is_digit (?d a)" "list_all is_digit (?d b)"
    by (simp_all add: is_ymd_lexical_def)
  note y = digits_order [OF len(1) dig(1) dig(2)]
    and m = digits_order [OF len(2) dig(3) dig(4)]
    and d = digits_order [OF len(3) dig(5) dig(6)]
  have a: "a = ?y a @ CHR ''-'' # ?m a @ CHR ''-'' # ?d a" by (rule ymd_parts [OF assms(1)])
  have b: "b = ?y b @ CHR ''-'' # ?m b @ CHR ''-'' # ?d b" by (rule ymd_parts [OF assms(2)])
  have "(a < b) = (?y a @ CHR ''-'' # ?m a @ CHR ''-'' # ?d a
                    < ?y b @ CHR ''-'' # ?m b @ CHR ''-'' # ?d b)"
    using a b by simp
  also have "\<dots> = (?y a < ?y b \<or> (?y a = ?y b \<and>
                      (?m a < ?m b \<or> (?m a = ?m b \<and> ?d a < ?d b))))"
    by (simp only: append_less [OF len(1)] append_less [OF len(2)] Cons_less_Cons)
       simp
  also have "\<dots> = (date_value a < date_value b)"
    using y m d by (auto simp: date_value_def)
  finally show "(a < b) = (date_value a < date_value b)" .
  have "(a = b) = (?y a = ?y b \<and> ?m a = ?m b \<and> ?d a = ?d b)"
    using a b by metis
  also have "\<dots> = (date_value a = date_value b)"
    using y m d by (simp add: date_value_def)
  finally show "(a = b) = (date_value a = date_value b)" .
qed

lemma listed_before_calendar:
  assumes "is_ymd_lexical (row_date a)" and "is_ymd_lexical (row_date b)"
  shows "listed_before a b = calendar_before a b"
  by (simp add: listed_before_def calendar_before_def ymd_order [OF assms(2) assms(1)]
      ymd_order [OF assms])

section \<open>Listing\<close>

lemma row_json_inj: "row_json a = row_json b \<Longrightarrow> a = b"
  by (cases a; cases b) (simp add: row_json_def)

lemma listing_inj: "listing xs = listing ys \<Longrightarrow> xs = ys"
proof -
  assume "listing xs = listing ys"
  then have "map row_json xs = map row_json ys" by (simp add: listing_def json_def)
  moreover have "inj row_json" by (rule injI) (rule row_json_inj)
  ultimately show "xs = ys" by (simp add: inj_map_eq_map)
qed

lemma select_order:
  "sorted_wrt listed_before (rev (sort_key sort_key_desc rows))"
proof -
  have "sorted (map sort_key_desc (sort_key sort_key_desc rows))"
    by (rule sorted_sort_key)
  then have "sorted_wrt (\<lambda>a b. sort_key_desc a \<le> sort_key_desc b) (sort_key sort_key_desc rows)"
    by (simp add: sorted_map)
  then have "sorted_wrt (\<lambda>a b. listed_before b a) (sort_key sort_key_desc rows)"
    by (rule sorted_wrt_mono_rel [rotated]) (auto simp: sort_key_desc_def listed_before_def)
  then show ?thesis by (simp add: sorted_wrt_rev)
qed

lemma select_all_rows: "mset (rev (sort_key sort_key_desc rows)) = mset rows"
  by simp

text \<open>
  C7. With the pool initialized and a store that answers the query, GET /api/attendance
  executes the one \<^verbatim>\<open>SELECT\<close> and answers 200 with \<^verbatim>\<open>success: true\<close>, with
  \<^verbatim>\<open>data\<close> holding every stored row, each once, a greater \<^verbatim>\<open>date\<close> before a
  smaller one and, on one date, a later \<^verbatim>\<open>created_at\<close> before an earlier one, and
  with \<^verbatim>\<open>count\<close> the length of \<^verbatim>\<open>data\<close>. On a table whose dates all have the
  form the POST handler demands, which every request preserves, that is the order of the
  calendar. On an empty table the body is \<^verbatim>\<open>{success: true, data: [], count: 0}\<close>.
\<close>

theorem get_lists_sorted:
  assumes "pool = Some p" and "rejects db SelectAll = None"
  shows "\<exists>rows. get_attendance pool db =
             (listing rows, db\<lparr>statements := statements db @ [SelectAll]\<rparr>)
           \<and> mset rows = mset (table_rows db)
           \<and> sorted_wrt listed_before rows
           \<and> (dates_wellformed db \<longrightarrow> sorted_wrt calendar_before rows)
           \<and> res_status (listing rows) = 200
           \<and> res_body (listing rows) =
               Obj [(''success'', Bool True), (''data'', Arr (map row_json rows)),
                    (''count'', Num (int (length rows)))]
           \<and> (table_rows db = [] \<longrightarrow>
                res_body (listing rows) =
                  Obj [(''success'', Bool True), (''data'', Arr []), (''count'', Num 0)])"
proof (intro exI conjI)
  let ?rows = "rev (sort_key sort_key_desc (table_rows db))"
  from assms show "get_attendance pool db =
      (listing ?rows, db\<lparr>statements := statements db @ [SelectAll]\<rparr>)"
    by (simp add: get_attendance_def execute_select_def Let_def)
  show "mset ?rows = mset (table_rows db)"
    by (rule select_all_rows)
  show "sorted_wrt listed_before ?rows"
    by (rule select_order)
  show "dates_wellformed db \<longrightarrow> sorted_wrt calendar_before ?rows"
  proof
    assume "dates_wellformed db"
    then have "\<forall>r \<in> set ?rows. is_ymd_lexical (row_date r)"
      by (simp add: dates_wellformed_def list_all_iff)
    then have step: "\<And>a b. a \<in> set ?rows \<Longrightarrow> b \<in> set ?rows \<Longrightarrow> listed_before a b
                 \<Longrightarrow> calendar_before a b"
      by (simp add: listed_before_calendar)
    show "sorted_wrt calendar_before ?rows"
      by (rule sorted_wrt_mono_rel [OF step select_order])
  qed
qed (auto simp: listing_def json_def)

text \<open>
  Three rows, two of them on one date, come back latest first; the empty table gives the
  empty listing.
\<close>

theorem get_lists_sorted_witness:
  "get_attendance (Some Pool) small_store =
     (listing [row14, row13, row12], small_store\<lparr>statements := [SelectAll]\<rparr>)
   \<and> dates_wellformed small_store
   \<and> sorted_wrt calendar_before [row14, row13, row12]
   \<and> res_body (fst (get_attendance (Some Pool) fresh_store)) =
       Obj [(''success'', Bool True), (''data'', Arr []), (''count'', Num 0)]"
proof -
  have r: "rejects small_store SelectAll = None" "rejects fresh_store SelectAll = None"
    by (simp_all add: small_store_def fresh_store_def)
  have e: "table_rows fresh_store = []" "statements small_store = []"
    by (simp_all add: fresh_store_def small_store_def)
  have wf: "dates_wellformed small_store"
    by (simp add: dates_wellformed_def small_store_def row12_def row13_def row14_def
        is_ymd_lexical_def is_digit_def)
  from get_lists_sorted [OF refl r(1), of Pool] wf obtain rows where
    g: "get_attendance (Some Pool) small_store =
          (listing rows, small_store\<lparr>statements := statements small_store @ [SelectAll]\<rparr>)"
    and c: "sorted_wrt calendar_before rows"
    by blast
  have v: "get_attendance (Some Pool) small_store =
          (listing [row14, row13, row12], small_store\<lparr>statements := [SelectAll]\<rparr>)"
    by (simp add: get_attendance_def execute_select_def Let_def small_store_def
        sort_key_desc_def row12_def row13_def row14_def)
  with g have "listing rows = listing [row14, row13, row12]" by simp
  then have "rows = [row14, row13, row12]" by (rule listing_inj)
  with c have "sorted_wrt calendar_before [row14, row13, row12]" by simp
  moreover
  from get_lists_sorted [OF refl r(2), of Pool] e(1)
  have "res_body (fst (get_attendance (Some Pool) fresh_store)) =
       Obj [(''success'', Bool True), (''data'', Arr []), (''count'', Num 0)]"
    by auto
  ultimately show ?thesis using v wf by simp
qed

section \<open>Deleting a record\<close>

lemma filter_keeps_other_ids:
  "k \<notin> row_id ` set rows \<Longrightarrow> filter (\<lambda>r. row_id r \<noteq> k) rows = rows"
  by (induction rows) auto

lemma delete_one_row:
  assumes "distinct (map row_id rows)" and "r \<in> set rows"
  shows "\<exists>xs ys. rows = xs @ r # ys \<and>
           filter (\<lambda>x. Finite (row_id x) \<noteq> Finite (row_id r)) rows = xs @ ys"
proof -
  from assms(2) obtain xs ys where split: "rows = xs @ r # ys"
    by (auto dest: split_list)
  with assms(1) have "row_id r \<notin> row_id ` set xs" "row_id r \<notin> row_id ` set ys"
    by auto
  then have "filter (\<lambda>x. Finite (row_id x) \<noteq> Finite (row_id r)) xs = xs"
    "filter (\<lambda>x. Finite (row_id x) \<noteq> Finite (row_id r)) ys = ys"
    by (simp_all add: filter_keeps_other_ids)
  with split show ?thesis by auto
qed

lemma filter_shorter_iff:
  "(length rows - length (filter P rows) = 0) = (\<forall>r \<in> set rows. P r)"
proof -
  have le: "length (filter P rows) \<le> length rows" by simp
  have "(length (filter P rows) = length rows) = (\<forall>r \<in> set rows. P r)"
  proof (induction rows)
    case Nil
    show ?case by simp
  next
    case (Cons a rows)
    have "length (filter P rows) \<le> length rows" by simp
    then have "length (filter P rows) \<noteq> Suc (length rows)" by arith
    with Cons show ?case by simp
  qed
  moreover from le
  have "(length rows - length (filter P rows) = 0) = (length (filter P rows) = length rows)"
    by arith
  ultimately show ?thesis by (simp only:)
qed

lemma delete_responses:
  "invalid_id =
     \<lparr>res_status = 400,
      res_body = Obj [(''success'', Bool False), (''error'', Str ''Valid ID is required'')]\<rparr>"
  "record_not_found =
     \<lparr>res_status = 404,
      res_body = Obj [(''success'', Bool False), (''error'', Str ''Record not found'')]\<rparr>"
  "record_deleted =
     \<lparr>res_status = 200,
      res_body = Obj [(''success'', Bool True),
                      (''message'', Str ''Record deleted successfully'')]\<rparr>"
  by (simp_all add: invalid_id_def record_not_found_def record_deleted_def json_def)

lemma delete_responses_distinct:
  "delete_catch e \<noteq> invalid_id" "record_not_found \<noteq> invalid_id" "record_deleted \<noteq> invalid_id"
  by (simp_all add: delete_catch_def record_not_found_def record_deleted_def invalid_id_def
      json_def)

text \<open>An id that passes the check is answered 500, 404 or 200, and the statement is executed.\<close>

lemma delete_accepted:
  assumes "pool = Some p" and "s \<noteq> []" and "\<not> isNaN s"
  shows "res_status (fst (delete_attendance pool (Some s) db)) \<noteq> 400"
    and "fst (delete_attendance pool (Some s) db) \<noteq> invalid_id"
    and "statements (snd (delete_attendance pool (Some s) db))
           = statements db @ [DeleteById (parseInt s)]"
proof -
  from assms have answer: "(\<exists>e. fst (delete_attendance pool (Some s) db) = delete_catch e)
      \<or> fst (delete_attendance pool (Some s) db) = record_not_found
      \<or> fst (delete_attendance pool (Some s) db) = record_deleted"
    by (auto simp: delete_attendance_def split: prod.splits sum.splits)
  then show "res_status (fst (delete_attendance pool (Some s) db)) \<noteq> 400"
    by (auto simp: delete_catch_def record_not_found_def record_deleted_def json_def)
  from answer show "fst (delete_attendance pool (Some s) db) \<noteq> invalid_id"
    by (auto simp: delete_responses_distinct)
  from assms show "statements (snd (delete_attendance pool (Some s) db))
           = statements db @ [DeleteById (parseInt s)]"
    by (simp add: delete_attendance_def execute_delete_def Let_def split: option.splits)
qed

subsection \<open>Numbers as doubles\<close>

lemma mantissa_shift_small: "n < 2 ^ 53 \<Longrightarrow> mantissa_shift n = 0"
  by (subst mantissa_shift.simps) simp

lemma to_double_exact:
  assumes "n < 2 ^ 53"
  shows "to_double n = Some n"
proof -
  have "(2::nat) ^ 53 \<le> 2 ^ 1024" by (rule power_increasing) simp_all
  with assms have "\<not> 2 ^ 1024 \<le> n" by simp
  with assms show ?thesis
    by (simp add: to_double_def mantissa_shift_small)
qed

lemma mantissa_shift_54: "2 ^ 53 \<le> n \<Longrightarrow> n < 2 ^ 54 \<Longrightarrow> mantissa_shift n = 1"
proof -
  assume a: "2 ^ 53 \<le> n" "n < 2 ^ 54"
  then have "n div 2 < 2 ^ 53" by simp
  with a show ?thesis
    by (subst mantissa_shift.simps) (simp add: mantissa_shift_small)
qed

lemma to_double_examples:
  "to_double 9007199254740993 = Some 9007199254740992"
  "to_double 9007199254740995 = Some 9007199254740996"
proof -
  have p: "(2::nat) ^ 53 = 9007199254740992" "(2::nat) ^ 54 = 18014398509481984" by simp_all
  have big: "\<not> (2::nat) ^ 1024 \<le> 9007199254740992" "\<not> (2::nat) ^ 1024 \<le> 9007199254740996"
    by simp_all
  have s: "mantissa_shift 9007199254740993 = 1" "mantissa_shift 9007199254740995 = 1"
    by (rule mantissa_shift_54; simp)+
  show "to_double 9007199254740993 = Some 9007199254740992"
    using big by (simp add: to_double_def s Let_def)
  show "to_double 9007199254740995 = Some 9007199254740996"
    using big by (simp add: to_double_def s Let_def)
qed

lemma parseInt_rounds: "parseInt ''9007199254740993'' = Finite 9007199254740992"
  by (simp add: parseInt_def trim_start_def is_space_def is_digit_def Let_def
      radix_value_def digit_value_def to_double_examples)

lemma parseInt_examples:
  "parseInt ''999999'' = Finite 999999" "parseInt ''13'' = Finite 13" "parseInt ''12.5'' = Finite 12"
  by (simp_all add: parseInt_def trim_start_def is_space_def is_digit_def Let_def
      radix_value_def digit_value_def to_double_exact)

lemma parseInt_blank: "parseInt '' '' = NaN" "parseInt ''Infinity'' = NaN"
  by (simp_all add: parseInt_def trim_start_def is_space_def is_digit_def Let_def)

lemma mantissa_shift_fits: "n div 2 ^ mantissa_shift n < 2 ^ 53"
proof (induction n rule: mantissa_shift.induct)
  case (1 n)
  show ?case
  proof (cases "n < 2 ^ 53")
    case True
    then show ?thesis by (simp add: mantissa_shift_small)
  next
    case False
    then have s: "mantissa_shift n = Suc (mantissa_shift (n div 2))"
      by (subst mantissa_shift.simps) simp
    have "n div 2 ^ Suc (mantissa_shift (n div 2)) = n div 2 div 2 ^ mantissa_shift (n div 2)"
      by (simp add: div_mult2_eq)
    with "1.IH" [OF False] s show ?thesis by simp
  qed
qed

text \<open>
  The result is a number of at most 53 significant bits, and no number of that form is
  nearer.
\<close>

lemma to_double_nearest:
  assumes "to_double n = Some v"
  shows "\<exists>q \<le> 2 ^ 53. v = q * 2 ^ mantissa_shift n"
    and "2 * (v - n) \<le> 2 ^ mantissa_shift n" and "2 * (n - v) \<le> 2 ^ mantissa_shift n"
proof -
  define e where "e = mantissa_shift n"
  define q where "q = n div 2 ^ e"
  define r where "r = n mod 2 ^ e"
  define up where "up = ((2::nat) ^ e < 2 * r \<or> (2 * r = 2 ^ e \<and> odd q))"
  have n: "n = q * 2 ^ e + r" unfolding q_def r_def by (rule div_mult_mod_eq [symmetric])
  have r: "r < 2 ^ e" by (simp add: r_def)
  have q: "q < 2 ^ 53" unfolding q_def e_def by (rule mantissa_shift_fits)
  define w where "w = (if up then q + 1 else q) * 2 ^ e"
  have "to_double n = (if 2 ^ 1024 \<le> w then None else Some w)"
    unfolding to_double_def Let_def w_def up_def q_def r_def e_def by (rule refl)
  with assms have "v = w" by (simp split: if_splits)
  then have v: "v = (if up then q + 1 else q) * 2 ^ e" by (simp add: w_def)
  from q have "(if up then q + 1 else q) \<le> 2 ^ 53" by simp
  with v show "\<exists>q \<le> 2 ^ 53. v = q * 2 ^ mantissa_shift n"
    unfolding e_def by blast
  show "2 * (v - n) \<le> 2 ^ mantissa_shift n"
  proof (cases up)
    case True
    then have "2 ^ e \<le> 2 * r" by (auto simp: up_def)
    moreover from True v have "v = q * 2 ^ e + 2 ^ e" by (simp add: algebra_simps)
    ultimately show ?thesis using n r unfolding e_def [symmetric] by simp
  next
    case False
    with v n show ?thesis by simp
  qed
  show "2 * (n - v) \<le> 2 ^ mantissa_shift n"
  proof (cases up)
    case True
    with v have "v = q * 2 ^ e + 2 ^ e" by (simp add: algebra_simps)
    with n r show ?thesis by simp
  next
    case False
    then have "2 * r \<le> 2 ^ e" by (auto simp: up_def)
    moreover from False v have "v = q * 2 ^ e" by simp
    ultimately show ?thesis using n unfolding e_def [symmetric] by simp
  qed
qed

subsection \<open>The text of a number\<close>

lemma digit_not_space: "is_digit c \<Longrightarrow> \<not> is_space c"
  by (auto simp: is_digit_def is_space_def)

lemma digit_not_sign: "is_digit c \<Longrightarrow> c \<noteq> CHR ''+'' \<and> c \<noteq> CHR ''-''"
  by (auto simp: is_digit_def)

lemma sign_not_space: "c = CHR ''+'' \<or> c = CHR ''-'' \<Longrightarrow> \<not> is_space c"
  by (auto simp: is_space_def)

lemma trim_id:
  assumes "s \<noteq> []" and "\<not> is_space (hd s)" and "\<not> is_space (last s)"
  shows "trim s = s"
proof -
  from assms have "dropWhile is_space s = s" by (cases s) simp_all
  moreover from assms have "dropWhile is_space (rev s) = rev s"
    by (cases "rev s") (simp_all add: last_rev [symmetric] hd_rev)
  ultimately show ?thesis by (simp add: trim_def)
qed

lemma decimal_text_numeric:
  assumes "takeWhile is_digit u \<noteq> []"
    and "case dropWhile is_digit u of [] \<Rightarrow> True
         | c # fraction \<Rightarrow> c = CHR ''.'' \<and> fraction \<noteq> [] \<and> list_all is_digit fraction"
  shows "is_unsigned_decimal u" and "u \<noteq> []" and "is_digit (hd u)" and "is_digit (last u)"
proof -
  from assms(1) show ne: "u \<noteq> []" by auto
  from assms(1) show "is_digit (hd u)" by (cases u) (auto split: if_splits)
  show "is_unsigned_decimal u"
  proof (cases "dropWhile is_digit u")
    case Nil
    from assms(1) show ?thesis
      unfolding is_unsigned_decimal_def Let_def Nil by simp
  next
    case (Cons c fraction)
    with assms(2) have f: "c = CHR ''.''" "fraction \<noteq> []" "list_all is_digit fraction" by simp_all
    from f(3) have t: "takeWhile is_digit fraction = fraction" "dropWhile is_digit fraction = []"
      by (simp_all add: list_all_iff)
    from assms(1) f show ?thesis
      unfolding is_unsigned_decimal_def Let_def Cons by (simp add: t)
  qed
  have u: "u = takeWhile is_digit u @ dropWhile is_digit u" by simp
  show "is_digit (last u)"
  proof (cases "dropWhile is_digit u")
    case Nil
    then have "list_all is_digit u" by (simp add: list_all_iff)
    with ne show ?thesis by (simp add: list_all_iff)
  next
    case (Cons c fraction)
    with assms(2) have f: "fraction \<noteq> []" "list_all is_digit fraction" by simp_all
    from u Cons have "last u = last fraction" using f(1)
      by (metis last_ConsR last_appendR list.distinct(1))
    with f show ?thesis by (simp add: list_all_iff)
  qed
qed

text \<open>Every id that is the text of a number passes the check of the handler.\<close>

lemma number_text_accepted:
  assumes "is_number_text s"
  shows "s \<noteq> []" and "\<not> isNaN s"
proof -
  let ?u = "strip_sign s"
  from assms have a: "takeWhile is_digit ?u \<noteq> []"
    and b: "case dropWhile is_digit ?u of [] \<Rightarrow> True
         | c # fraction \<Rightarrow> c = CHR ''.'' \<and> fraction \<noteq> [] \<and> list_all is_digit fraction"
    by (simp_all add: is_number_text_def Let_def)
  note d = decimal_text_numeric [OF a b]
  from d(2) show ne: "s \<noteq> []" by (cases s) auto
  have ends: "\<not> is_space (hd s) \<and> \<not> is_space (last s)"
  proof (cases s)
    case Nil
    with ne show ?thesis by simp
  next
    case (Cons c t)
    show ?thesis
    proof (cases "c = CHR ''+'' \<or> c = CHR ''-''")
      case True
      with Cons have u: "?u = t" by auto
      with d(2) have "last s = last t" using Cons by simp
      with d(4) u True Cons show ?thesis
        by (auto simp: digit_not_space sign_not_space)
    next
      case False
      with Cons have "?u = s" by simp
      with d(3) d(4) show ?thesis by (simp add: digit_not_space)
    qed
  qed
  with ne have "trim s = s" by (simp add: trim_id)
  with d(1) show "\<not> isNaN s"
    by (simp add: isNaN_def is_numeric_literal_def Let_def)
qed

lemma numeric_examples:
  "isNaN ''abc''" "\<not> isNaN ''999999''" "\<not> isNaN ''13''" "\<not> isNaN ''12.5''"
  "\<not> isNaN '' ''" "\<not> isNaN ''Infinity''" "\<not> isNaN ''9007199254740993''"
  by (simp_all add: isNaN_def is_numeric_literal_def trim_def is_space_def
      is_unsigned_decimal_def is_digit_def Let_def)

lemma small_store_rows: "table_rows small_store = [row12, row13, row14]"
  by (simp add: small_store_def)

lemma small_store_ids:
  "row_id row12 = 12" "row_id row13 = 13" "row_id row14 = 14"
  by (simp_all add: row12_def row13_def row14_def)

lemma small_store_accepts: "rejects small_store q = None"
  by (simp add: small_store_def)

lemma small_store_key: "primary_key small_store"
  by (simp add: primary_key_def small_store_def row12_def row13_def row14_def)

subsection \<open>The outcomes of a DELETE\<close>

text \<open>
  An id of one space, and the id \<^verbatim>\<open>Infinity\<close>, are not the text of a number. The
  conversion to a number takes the first for 0 and the second for infinity, so
  \<^verbatim>\<open>isNaN\<close> is false of both and neither is answered 400: the statement is executed,
  with \<^verbatim>\<open>NaN\<close> for its parameter.
\<close>

theorem delete_blank_id_reaches_store:
  "\<not> is_number_text '' ''
   \<and> res_status (fst (delete_attendance (Some Pool) (Some '' '') small_store)) \<noteq> 400
   \<and> statements (snd (delete_attendance (Some Pool) (Some '' '') small_store))
       = [DeleteById NaN]
   \<and> \<not> is_number_text ''Infinity''
   \<and> res_status (fst (delete_attendance (Some Pool) (Some ''Infinity'') small_store)) \<noteq> 400
   \<and> statements (snd (delete_attendance (Some Pool) (Some ''Infinity'') small_store))
       = [DeleteById NaN]"
  by (simp add: is_number_text_def is_digit_def delete_attendance_def numeric_examples
      parseInt_blank execute_delete_def Let_def small_store_def delete_responses)

text \<open>
  C6. With the pool initialized: a DELETE is answered 400 with
  \<^verbatim>\<open>Valid ID is required\<close>, the store left as it was and no statement executed, when
  its id is missing, empty or a string that the conversion to a number takes to
  \<^verbatim>\<open>NaN\<close> (\<^verbatim>\<open>isNaN\<close>), and only then: every other id is not answered 400 and has
  the statement executed with \<^verbatim>\<open>parseInt\<close> of the id for its parameter. The text of
  a number is always such an id. When the store executes the statement on a table whose
  ids are unique: if no row has the id \<^verbatim>\<open>parseInt\<close> gives, the answer is 404
  \<^verbatim>\<open>Record not found\<close> and the rows are unchanged; if a row has it, the answer is 200
  with the success message, and the rows are the old ones without that one row, the
  others in their order.
\<close>

theorem delete_outcomes:
  assumes "pool = Some p"
  shows "(id_param = None \<or> id_param = Some [] \<or> (\<exists>s. id_param = Some s \<and> isNaN s)
            \<longrightarrow> delete_attendance pool id_param db =
                  (\<lparr>res_status = 400,
                    res_body = Obj [(''success'', Bool False),
                                    (''error'', Str ''Valid ID is required'')]\<rparr>, db))
       \<and> (\<forall>s. id_param = Some s \<and> s \<noteq> [] \<and> \<not> isNaN s
            \<longrightarrow> res_status (fst (delete_attendance pool id_param db)) \<noteq> 400
                \<and> statements (snd (delete_attendance pool id_param db))
                    = statements db @ [DeleteById (parseInt s)])
       \<and> (\<forall>s. is_number_text s \<longrightarrow> s \<noteq> [] \<and> \<not> isNaN s)
       \<and> (\<forall>s. id_param = Some s \<and> s \<noteq> [] \<and> \<not> isNaN s
                \<and> rejects db (DeleteById (parseInt s)) = None \<and> primary_key db
            \<longrightarrow> (if \<exists>r \<in> set (table_rows db). Finite (row_id r) = parseInt s
                 then fst (delete_attendance pool id_param db) =
                        \<lparr>res_status = 200,
                         res_body = Obj [(''success'', Bool True),
                                         (''message'', Str ''Record deleted successfully'')]\<rparr>
                    \<and> (\<exists>xs r ys. table_rows db = xs @ r # ys \<and> Finite (row_id r) = parseInt s
                          \<and> table_rows (snd (delete_attendance pool id_param db)) = xs @ ys)
                 else fst (delete_attendance pool id_param db) =
                        \<lparr>res_status = 404,
                         res_body = Obj [(''success'', Bool False),
                                         (''error'', Str ''Record not found'')]\<rparr>
                    \<and> table_rows (snd (delete_attendance pool id_param db)) = table_rows db))"
proof (intro conjI allI impI)
  assume "id_param = None \<or> id_param = Some [] \<or> (\<exists>s. id_param = Some s \<and> isNaN s)"
  with assms show "delete_attendance pool id_param db =
                  (\<lparr>res_status = 400,
                    res_body = Obj [(''success'', Bool False),
                                    (''error'', Str ''Valid ID is required'')]\<rparr>, db)"
    by (auto simp: delete_attendance_def delete_responses)
next
  fix s
  assume "id_param = Some s \<and> s \<noteq> [] \<and> \<not> isNaN s"
  with delete_accepted [OF assms, of s db]
  show "res_status (fst (delete_attendance pool id_param db)) \<noteq> 400"
    and "statements (snd (delete_attendance pool id_param db))
           = statements db @ [DeleteById (parseInt s)]"
    by simp_all
next
  fix s
  assume "is_number_text s"
  then show "s \<noteq> []" and "\<not> isNaN s" by (rule number_text_accepted)+
next
  fix s
  assume a: "id_param = Some s \<and> s \<noteq> [] \<and> \<not> isNaN s
               \<and> rejects db (DeleteById (parseInt s)) = None \<and> primary_key db"
  define kept where "kept = filter (\<lambda>r. Finite (row_id r) \<noteq> parseInt s) (table_rows db)"
  define n where "n = length (table_rows db) - length kept"
  from assms a have run: "delete_attendance pool id_param db =
      (if n = 0 then record_not_found else record_deleted,
       db\<lparr>statements := statements db @ [DeleteById (parseInt s)], table_rows := kept\<rparr>)"
    by (simp add: delete_attendance_def execute_delete_def Let_def n_def kept_def)
  have zero: "(n = 0) = (\<forall>r \<in> set (table_rows db). Finite (row_id r) \<noteq> parseInt s)"
    unfolding n_def kept_def by (rule filter_shorter_iff)
  show "if \<exists>r \<in> set (table_rows db). Finite (row_id r) = parseInt s
        then fst (delete_attendance pool id_param db) =
               \<lparr>res_status = 200,
                res_body = Obj [(''success'', Bool True),
                                (''message'', Str ''Record deleted successfully'')]\<rparr>
           \<and> (\<exists>xs r ys. table_rows db = xs @ r # ys \<and> Finite (row_id r) = parseInt s
                 \<and> table_rows (snd (delete_attendance pool id_param db)) = xs @ ys)
        else fst (delete_attendance pool id_param db) =
               \<lparr>res_status = 404,
                res_body = Obj [(''success'', Bool False),
                                (''error'', Str ''Record not found'')]\<rparr>
           \<and> table_rows (snd (delete_attendance pool id_param db)) = table_rows db"
  proof (cases "\<exists>r \<in> set (table_rows db). Finite (row_id r) = parseInt s")
    case True
    then obtain r where r: "r \<in> set (table_rows db)" "Finite (row_id r) = parseInt s"
      by blast
    from a have "distinct (map row_id (table_rows db))" by (simp add: primary_key_def)
    from delete_one_row [OF this r(1)] r(2) obtain xs ys where
      split: "table_rows db = xs @ r # ys" "kept = xs @ ys"
      unfolding kept_def by auto
    from True zero have "n \<noteq> 0" by blast
    with run have res: "delete_attendance pool id_param db =
      (record_deleted,
       db\<lparr>statements := statements db @ [DeleteById (parseInt s)], table_rows := kept\<rparr>)"
      by simp
    have "\<exists>xs r ys. table_rows db = xs @ r # ys \<and> Finite (row_id r) = parseInt s
            \<and> table_rows (snd (delete_attendance pool id_param db)) = xs @ ys"
      using split r(2) res by auto
    with res True show ?thesis
      by (simp add: delete_responses)
  next
    case False
    then have all: "\<forall>r \<in> set (table_rows db). Finite (row_id r) \<noteq> parseInt s" by blast
    with zero have "n = 0" by blast
    moreover from all have "kept = table_rows db"
      unfolding kept_def by (simp add: filter_id_conv)
    ultimately show ?thesis using run False
      by (simp add: delete_responses)
  qed
qed

text \<open>
  On the table of rows 12, 13 and 14: \<^verbatim>\<open>abc\<close> is refused, \<^verbatim>\<open>999999\<close> is not found,
  \<^verbatim>\<open>13\<close> removes row 13 alone, and \<^verbatim>\<open>-3.5\<close>, the text of a number, is not refused.
\<close>

theorem delete_outcomes_witness:
  "delete_attendance (Some Pool) (Some ''abc'') small_store =
     (\<lparr>res_status = 400,
       res_body = Obj [(''success'', Bool False), (''error'', Str ''Valid ID is required'')]\<rparr>,
      small_store)
   \<and> fst (delete_attendance (Some Pool) (Some ''999999'') small_store) =
       \<lparr>res_status = 404,
        res_body = Obj [(''success'', Bool False), (''error'', Str ''Record not found'')]\<rparr>
   \<and> table_rows (snd (delete_attendance (Some Pool) (Some ''999999'') small_store))
       = [row12, row13, row14]
   \<and> fst (delete_attendance (Some Pool) (Some ''13'') small_store) =
       \<lparr>res_status = 200,
        res_body = Obj [(''success'', Bool True),
                        (''message'', Str ''Record deleted successfully'')]\<rparr>
   \<and> table_rows (snd (delete_attendance (Some Pool) (Some ''13'') small_store)) = [row12, row14]
   \<and> is_number_text ''-3.5'' \<and> \<not> isNaN ''-3.5''
   \<and> res_status (fst (delete_attendance (Some Pool) (Some ''-3.5'') small_store)) \<noteq> 400"
proof -
  have bad: "Some ''abc'' = None \<or> Some ''abc'' = Some [] \<or> (\<exists>s. Some ''abc'' = Some s \<and> isNaN s)"
    by (simp add: numeric_examples)
  have absent: "\<not> (\<exists>r \<in> set (table_rows small_store). Finite (row_id r) = parseInt ''999999'')"
    by (simp add: small_store_rows small_store_ids parseInt_examples)
  have present: "\<exists>r \<in> set (table_rows small_store). Finite (row_id r) = parseInt ''13''"
    by (simp add: small_store_rows small_store_ids parseInt_examples)
  have minus: "is_number_text ''-3.5''"
    by (simp add: is_number_text_def is_digit_def)
  have "delete_attendance (Some Pool) (Some ''abc'') small_store =
     (\<lparr>res_status = 400,
       res_body = Obj [(''success'', Bool False), (''error'', Str ''Valid ID is required'')]\<rparr>,
      small_store)"
    using delete_outcomes [OF refl, of "Some ''abc''" Pool small_store] bad by blast
  moreover
  have "fst (delete_attendance (Some Pool) (Some ''999999'') small_store) =
       \<lparr>res_status = 404,
        res_body = Obj [(''success'', Bool False), (''error'', Str ''Record not found'')]\<rparr>
      \<and> table_rows (snd (delete_attendance (Some Pool) (Some ''999999'') small_store))
          = table_rows small_store"
    using delete_outcomes [OF refl, of "Some ''999999''" Pool small_store] absent
      numeric_examples(2) small_store_accepts small_store_key
    by (simp del: set_simps)
  moreover
  have "fst (delete_attendance (Some Pool) (Some ''13'') small_store) =
       \<lparr>res_status = 200,
        res_body = Obj [(''success'', Bool True),
                        (''message'', Str ''Record deleted successfully'')]\<rparr>"
    using delete_outcomes [OF refl, of "Some ''13''" Pool small_store] present
      numeric_examples(3) small_store_accepts small_store_key
    by (simp del: set_simps)
  moreover
  have "table_rows (snd (delete_attendance (Some Pool) (Some ''13'') small_store)) = [row12, row14]"
    by (simp add: delete_attendance_def numeric_examples parseInt_examples execute_delete_def
        Let_def small_store_accepts small_store_rows small_store_ids split: prod.splits)
  moreover
  from delete_outcomes [OF refl, of "Some ''-3.5''" Pool small_store] minus
  have "\<not> isNaN ''-3.5''"
    and "res_status (fst (delete_attendance (Some Pool) (Some ''-3.5'') small_store)) \<noteq> 400"
    by blast+
  ultimately show ?thesis using minus by (simp add: small_store_rows)
qed

text \<open>
  C10. The id check of the DELETE handler lets through every non-empty string that
  \<^verbatim>\<open>isNaN\<close> takes for a number: the request is not answered with the 400 of an invalid
  id, and the statement executed deletes by \<^verbatim>\<open>parseInt\<close> of the string. \<^verbatim>\<open>12.5\<close> is
  such a string and is no integer literal; \<^verbatim>\<open>parseInt\<close> cuts it to 12, and on the
  table of rows 12, 13 and 14 the request deletes row 12. The parameter is a double:
  for the id \<^verbatim>\<open>9007199254740993\<close> it is 9007199254740992.
\<close>

theorem delete_non_integer_id:
  assumes "pool = Some p" and "s \<noteq> []" and "\<not> isNaN s"
  shows "fst (delete_attendance pool (Some s) db) \<noteq> invalid_id
       \<and> res_status (fst (delete_attendance pool (Some s) db)) \<noteq> 400
       \<and> statements (snd (delete_attendance pool (Some s) db))
           = statements db @ [DeleteById (parseInt s)]
       \<and> isNaN ''12.5'' = False
       \<and> parseInt ''12.5'' = Finite 12
       \<and> delete_attendance (Some Pool) (Some ''12.5'') small_store =
           (\<lparr>res_status = 200,
             res_body = Obj [(''success'', Bool True),
                             (''message'', Str ''Record deleted successfully'')]\<rparr>,
            small_store\<lparr>statements := [DeleteById (Finite 12)], table_rows := [row13, row14]\<rparr>)
       \<and> parseInt ''9007199254740993'' = Finite 9007199254740992"
proof -
  note delete_accepted [OF assms, of db]
  moreover have "delete_attendance (Some Pool) (Some ''12.5'') small_store =
           (\<lparr>res_status = 200,
             res_body = Obj [(''success'', Bool True),
                             (''message'', Str ''Record deleted successfully'')]\<rparr>,
            small_store\<lparr>statements := [DeleteById (Finite 12)], table_rows := [row13, row14]\<rparr>)"
    by (simp add: delete_attendance_def numeric_examples parseInt_examples execute_delete_def
        Let_def small_store_accepts small_store_rows small_store_ids small_store_def
        delete_responses)
  ultimately show ?thesis
    by (simp add: numeric_examples parseInt_examples parseInt_rounds)
qed

text \<open>
  The theorem at \<^verbatim>\<open>12.5\<close> itself, at the hexadecimal \<^verbatim>\<open>0x0d\<close>, which is 13, and at
  \<^verbatim>\<open>9007199254740993\<close>, which 53 bits do not hold.
\<close>

theorem delete_non_integer_id_witness:
  "fst (delete_attendance (Some Pool) (Some ''12.5'') small_store) \<noteq> invalid_id
   \<and> res_status (fst (delete_attendance (Some Pool) (Some ''12.5'') small_store)) \<noteq> 400
   \<and> statements (snd (delete_attendance (Some Pool) (Some ''12.5'') small_store))
       = [DeleteById (Finite 12)]
   \<and> statements (snd (delete_attendance (Some Pool) (Some ''0x0d'') small_store))
       = [DeleteById (Finite 13)]
   \<and> statements (snd (delete_attendance (Some Pool) (Some ''9007199254740993'') small_store))
       = [DeleteById (Finite 9007199254740992)]"
proof -
  have n: "''12.5'' \<noteq> []" "\<not> isNaN ''12.5''" "''0x0d'' \<noteq> []" "\<not> isNaN ''0x0d''"
    "''9007199254740993'' \<noteq> []" "\<not> isNaN ''9007199254740993''"
    by (simp_all add: isNaN_def is_numeric_literal_def trim_def is_space_def
        is_unsigned_decimal_def is_digit_def is_hex_digit_def Let_def)
  have h: "parseInt ''0x0d'' = Finite 13"
    by (simp add: parseInt_def trim_start_def is_space_def is_digit_def is_hex_digit_def Let_def
        radix_value_def digit_value_def to_double_exact)
  have e: "statements small_store = []" by (simp add: small_store_def)
  from delete_non_integer_id [OF refl n(1) n(2), of Pool small_store]
       delete_non_integer_id [OF refl n(3) n(4), of Pool small_store]
       delete_non_integer_id [OF refl n(5) n(6), of Pool small_store]
  show ?thesis by (simp add: parseInt_examples parseInt_rounds h e)
qed

section \<open>Startup\<close>

lemma loop_third:
  "startServer_loop outcome (Suc (Suc 0)) pool =
     (if fst (initDatabase (outcome (Suc (Suc 0))) pool)
      then ([InitDatabase, Listen], snd (initDatabase (outcome (Suc (Suc 0))) pool))
      else ([InitDatabase, Exit 1], snd (initDatabase (outcome (Suc (Suc 0))) pool)))"
  by (subst startServer_loop.simps) (simp add: maxRetries_def Let_def)

lemma loop_second:
  "startServer_loop outcome (Suc 0) pool =
     (if fst (initDatabase (outcome (Suc 0)) pool)
      then ([InitDatabase, Listen], snd (initDatabase (outcome (Suc 0)) pool))
      else ([InitDatabase, Sleep 5000]
              @ fst (startServer_loop outcome (Suc (Suc 0))
                  (snd (initDatabase (outcome (Suc 0)) pool))),
            snd (startServer_loop outcome (Suc (Suc 0))
                  (snd (initDatabase (outcome (Suc 0)) pool)))))"
  by (subst startServer_loop.simps) (simp add: maxRetries_def Let_def)

lemma loop_first:
  "startServer_loop outcome 0 pool =
     (if fst (initDatabase (outcome 0) pool)
      then ([InitDatabase, Listen], snd (initDatabase (outcome 0) pool))
      else ([InitDatabase, Sleep 5000]
              @ fst (startServer_loop outcome (Suc 0) (snd (initDatabase (outcome 0) pool))),
            snd (startServer_loop outcome (Suc 0) (snd (initDatabase (outcome 0) pool)))))"
  by (subst startServer_loop.simps) (simp add: maxRetries_def Let_def)

lemma startServer_trace:
  "startServer outcome =
     (if outcome 0 = TableVerified then ([InitDatabase, Listen], Some Pool)
      else if outcome 1 = TableVerified
      then ([InitDatabase, Sleep 5000, InitDatabase, Listen], Some Pool)
      else if outcome 2 = TableVerified
      then ([InitDatabase, Sleep 5000, InitDatabase, Sleep 5000, InitDatabase, Listen], Some Pool)
      else ([InitDatabase, Sleep 5000, InitDatabase, Sleep 5000, InitDatabase, Exit 1],
            if outcome 0 = CreatePoolThrows \<and> outcome 1 = CreatePoolThrows
               \<and> outcome 2 = CreatePoolThrows
            then None else Some Pool))"
  unfolding startServer_def
  by (cases "outcome 0"; cases "outcome 1"; cases "outcome 2";
      simp add: loop_first loop_second loop_third numeral_2_eq_2)

text \<open>
  C8. Whatever the calls of \<^verbatim>\<open>initDatabase\<close> meet, \<^verbatim>\<open>startServer\<close> calls it at most
  three times and \<^verbatim>\<open>app.listen\<close> at most once. It listens exactly when one of the
  first three calls succeeds: then every failed call before the successful one was
  followed by a wait of 5000 ms, \<^verbatim>\<open>app.listen\<close> follows the successful call at once,
  and the pool is assigned. When all three calls fail, it waits 5000 ms after the first
  and after the second, ends with \<^verbatim>\<open>process.exit(1)\<close> after the third, and never
  listens.
\<close>

theorem startServer_bounded_retry:
  "count_list (fst (startServer outcome)) InitDatabase \<le> 3
   \<and> count_list (fst (startServer outcome)) Listen \<le> 1
   \<and> (Listen \<in> set (fst (startServer outcome)))
       = (outcome 0 = TableVerified \<or> outcome 1 = TableVerified \<or> outcome 2 = TableVerified)
   \<and> (Listen \<in> set (fst (startServer outcome)) \<longrightarrow>
        (\<exists>k < 3. outcome k = TableVerified \<and>
           fst (startServer outcome)
             = concat (replicate k [InitDatabase, Sleep 5000]) @ [InitDatabase, Listen])
        \<and> snd (startServer outcome) = Some Pool)
   \<and> (Listen \<notin> set (fst (startServer outcome)) \<longrightarrow>
        fst (startServer outcome)
          = [InitDatabase, Sleep 5000, InitDatabase, Sleep 5000, InitDatabase, Exit 1])"
proof -
  have r: "replicate 2 [InitDatabase, Sleep 5000] = [[InitDatabase, Sleep 5000], [InitDatabase, Sleep 5000]]"
    by (simp add: numeral_2_eq_2)
  have k0: "outcome 0 = TableVerified \<Longrightarrow> ?thesis"
    by (auto simp: startServer_trace intro: exI [of _ 0])
  have k1: "outcome 0 \<noteq> TableVerified \<Longrightarrow> outcome 1 = TableVerified \<Longrightarrow> ?thesis"
    by (auto simp: startServer_trace intro: exI [of _ 1])
  have k2: "outcome 0 \<noteq> TableVerified \<Longrightarrow> outcome 1 \<noteq> TableVerified
              \<Longrightarrow> outcome 2 = TableVerified \<Longrightarrow> ?thesis"
    by (auto simp: startServer_trace r intro: exI [of _ 2])
  have none: "outcome 0 \<noteq> TableVerified \<Longrightarrow> outcome 1 \<noteq> TableVerified
              \<Longrightarrow> outcome 2 \<noteq> TableVerified \<Longrightarrow> ?thesis"
    by (simp add: startServer_trace)
  from k0 k1 k2 none show ?thesis by blast
qed

text \<open>
  A database that comes up for the second call, and one that never does.
\<close>

theorem startServer_bounded_retry_witness:
  "fst (startServer (\<lambda>k. if k = 1 then TableVerified else ConnectionThrows))
     = [InitDatabase, Sleep 5000, InitDatabase, Listen]
   \<and> snd (startServer (\<lambda>k. if k = 1 then TableVerified else ConnectionThrows)) = Some Pool
   \<and> fst (startServer (\<lambda>k. ConnectionThrows))
     = [InitDatabase, Sleep 5000, InitDatabase, Sleep 5000, InitDatabase, Exit 1]"
proof -
  let ?second = "\<lambda>k::nat. if k = 1 then TableVerified else ConnectionThrows"
  let ?never = "\<lambda>k::nat. ConnectionThrows"
  have t: "fst (startServer ?second) = [InitDatabase, Sleep 5000, InitDatabase, Listen]"
    by (simp add: startServer_trace)
  then have "Listen \<in> set (fst (startServer ?second))" by simp
  with startServer_bounded_retry [of ?second]
  have p: "snd (startServer ?second) = Some Pool" by blast
  have "Listen \<notin> set (fst (startServer ?never))"
    by (simp add: startServer_trace)
  with startServer_bounded_retry [of ?never]
  have "fst (startServer ?never)
     = [InitDatabase, Sleep 5000, InitDatabase, Sleep 5000, InitDatabase, Exit 1]"
    by blast
  with t p show ?thesis by blast
qed

section \<open>CORS\<close>

lemma allowedOrigins_set:
  "set (allowedOrigins FRONTEND_URL) =
     {Str ''http://localhost:3000'', Str ''https://attendance-tracker-frontend.vercel.app'',
      Str ''https://attendance-tracker.vercel.app''}
     \<union> (case FRONTEND_URL of None \<Rightarrow> {} | Some u \<Rightarrow> if u = [] then {} else {Str u})"
  by (auto simp: allowedOrigins_def split: option.splits)

text \<open>
  An \<^verbatim>\<open>Origin\<close> header with an empty value is falsy, so \<^verbatim>\<open>!origin\<close> allows it like a
  missing header, although the header is there and the empty string is no member of the
  allow-list.
\<close>

theorem cors_empty_origin_allowed:
  "cors_origin None (header_value (Some [])) = None \<and> \<not> cors_spec None (Some [])"
  by (simp add: cors_origin_def cors_spec_def)

text \<open>
  C9. The CORS decision allows a request exactly when it has no \<^verbatim>\<open>Origin\<close> header,
  when its \<^verbatim>\<open>Origin\<close> is the empty string, or when its \<^verbatim>\<open>Origin\<close> equals one of
  the three fixed origins or \<^verbatim>\<open>FRONTEND_URL\<close> (when that is set). A request it does not
  allow never reaches a route: the answer is the global error handler's 500 and the store
  is left as it was.
\<close>

theorem cors_decision:
  "(cors_origin FRONTEND_URL (header_value origin) = None)
     = (origin = Some [] \<or> cors_spec FRONTEND_URL origin)
   \<and> (cors_origin FRONTEND_URL (header_value (req_origin req)) \<noteq> None \<longrightarrow>
        app FRONTEND_URL now pool req db =
          (error_handler (JsError None ''Not allowed by CORS''), db)
        \<and> res_status (error_handler (JsError None ''Not allowed by CORS'')) = 500)"
proof (rule conjI)
  show "(cors_origin FRONTEND_URL (header_value origin) = None)
     = (origin = Some [] \<or> cors_spec FRONTEND_URL origin)"
    by (cases origin; cases FRONTEND_URL)
       (auto simp: cors_origin_def cors_spec_def allowedOrigins_set)
  show "cors_origin FRONTEND_URL (header_value (req_origin req)) \<noteq> None \<longrightarrow>
        app FRONTEND_URL now pool req db =
          (error_handler (JsError None ''Not allowed by CORS''), db)
        \<and> res_status (error_handler (JsError None ''Not allowed by CORS'')) = 500"
    by (auto simp: app_def cors_origin_def error_handler_def json_def split: if_splits)
qed

text \<open>
  The configured origin, a missing header and a fixed origin are allowed; a foreign origin
  is answered by the error handler.
\<close>

theorem cors_decision_witness:
  "cors_origin (Some ''https://attendance.example.org'')
       (header_value (Some ''https://attendance.example.org'')) = None
   \<and> cors_origin None (header_value None) = None
   \<and> cors_origin None (header_value (Some ''http://localhost:3000'')) = None
   \<and> app None ''2024-03-01T00:00:00.000Z'' (Some Pool)
        \<lparr>req_origin = Some ''https://evil.example.org'', req_route = GetAttendance,
         req_body = Inr []\<rparr> small_store
       = (error_handler (JsError None ''Not allowed by CORS''), small_store)"
proof -
  let ?req = "\<lparr>req_origin = Some ''https://evil.example.org'', req_route = GetAttendance,
         req_body = Inr []\<rparr>"
  have blocked: "cors_origin None (header_value (req_origin ?req)) \<noteq> None"
    by (simp add: cors_origin_def allowedOrigins_def)
  have s: "cors_spec (Some ''https://attendance.example.org'') (Some ''https://attendance.example.org'')"
    "cors_spec None None" "cors_spec None (Some ''http://localhost:3000'')"
    by (simp_all add: cors_spec_def)
  from cors_decision [of "Some ''https://attendance.example.org''"
      "Some ''https://attendance.example.org''"] s(1)
  have "cors_origin (Some ''https://attendance.example.org'')
       (header_value (Some ''https://attendance.example.org'')) = None" by blast
  moreover from cors_decision [of None None] s(2)
  have "cors_origin None (header_value None) = None" by blast
  moreover from cors_decision [of None "Some ''http://localhost:3000''"] s(3)
  have "cors_origin None (header_value (Some ''http://localhost:3000'')) = None" by blast
  moreover from cors_decision [of None _ ?req] blocked
  have "app None ''2024-03-01T00:00:00.000Z'' (Some Pool) ?req small_store
       = (error_handler (JsError None ''Not allowed by CORS''), small_store)" by blast
  ultimately show ?thesis by blast
qed

section \<open>The envelope\<close>

lemma has_success_json:
  "has_success (res_body (json n ((''success'', Bool b) # ps)))"
  by (simp add: json_def)

lemma post_catch_envelope: "has_success (res_body (post_catch e))"
  by (simp add: post_catch_def has_success_json)

lemma get_envelope: "has_success (res_body (fst (get_attendance (Some p) db)))"
  by (simp add: get_attendance_def execute_select_def Let_def fetch_failed_def listing_def
      has_success_json split: option.splits)

lemma post_envelope: "has_success (res_body (fst (post_attendance (Some p) body db)))"
  by (simp add: post_attendance_def Let_def fields_required_def status_invalid_def
      date_invalid_def recorded_def post_catch_envelope has_success_json
      split: sum.splits prod.splits)

lemma delete_envelope: "has_success (res_body (fst (delete_attendance (Some p) i db)))"
  by (simp add: delete_attendance_def Let_def invalid_id_def record_not_found_def
      record_deleted_def delete_catch_def has_success_json
      split: option.splits sum.splits prod.splits)

text \<open>
  The bodies of GET /health and GET /api have no \<^verbatim>\<open>success\<close> property, and the body
  sent while the pool is unassigned is \<^verbatim>\<open>{error: 'Database not connected'}\<close>, with
  neither \<^verbatim>\<open>success\<close> nor \<^verbatim>\<open>details\<close>.
\<close>

theorem envelope_counterexample:
  "\<not> has_success (res_body (fst (app None ''2024-03-01T00:00:00.000Z'' (Some Pool)
        \<lparr>req_origin = None, req_route = Health, req_body = Inr []\<rparr> fresh_store)))
   \<and> \<not> has_success (res_body (fst (app None ''2024-03-01T00:00:00.000Z'' (Some Pool)
        \<lparr>req_origin = None, req_route = ApiInfo, req_body = Inr []\<rparr> fresh_store)))
   \<and> fst (get_attendance None fresh_store)
       = \<lparr>res_status = 500, res_body = Obj [(''error'', Str ''Database not connected'')]\<rparr>"
  by (simp add: app_def cors_origin_def health_def api_info_def get_attendance_def
      not_connected_def json_def)

text \<open>
  C1. A response has an object with a boolean \<^verbatim>\<open>success\<close> as its body when it comes
  from the global error handler (a refused origin, a body that does not parse), from the
  handler of unmatched routes, or from one of the three attendance routes while the pool
  is assigned. The bodies of GET /health and GET /api are static objects without a
  \<^verbatim>\<open>success\<close> property.
\<close>

theorem envelope_amended:
  "((cors_origin FRONTEND_URL (header_value (req_origin req)) \<noteq> None \<or> isl (req_body req)
      \<or> (\<exists>u. req_route req = NoRoute u)
      \<or> (req_route req \<noteq> Health \<and> req_route req \<noteq> ApiInfo \<and> pool \<noteq> None))
     \<longrightarrow> has_success (res_body (fst (app FRONTEND_URL now pool req db))))
   \<and> (cors_origin FRONTEND_URL (header_value (req_origin req)) = None \<and> \<not> isl (req_body req)
      \<and> (req_route req = Health \<or> req_route req = ApiInfo)
     \<longrightarrow> \<not> has_success (res_body (fst (app FRONTEND_URL now pool req db))))"
proof (rule conjI; rule impI)
  assume a: "cors_origin FRONTEND_URL (header_value (req_origin req)) \<noteq> None \<or> isl (req_body req)
      \<or> (\<exists>u. req_route req = NoRoute u)
      \<or> (req_route req \<noteq> Health \<and> req_route req \<noteq> ApiInfo \<and> pool \<noteq> None)"
  show "has_success (res_body (fst (app FRONTEND_URL now pool req db)))"
  proof (cases "cors_origin FRONTEND_URL (header_value (req_origin req))")
    case (Some e)
    then show ?thesis by (simp add: app_def error_handler_def has_success_json)
  next
    case None
    show ?thesis
    proof (cases "req_body req")
      case (Inl e)
      with None show ?thesis by (simp add: app_def error_handler_def has_success_json)
    next
      case (Inr body)
      with None a show ?thesis
        by (cases "req_route req")
           (auto simp: app_def not_found_def has_success_json get_envelope post_envelope
              delete_envelope)
    qed
  qed
next
  assume "cors_origin FRONTEND_URL (header_value (req_origin req)) = None \<and> \<not> isl (req_body req)
      \<and> (req_route req = Health \<or> req_route req = ApiInfo)"
  then show "\<not> has_success (res_body (fst (app FRONTEND_URL now pool req db)))"
    by (cases "req_body req") (auto simp: app_def health_def api_info_def json_def)
qed

text \<open>A refused origin, an unmatched route, a POST with an empty body, and GET /health.\<close>

theorem envelope_amended_witness:
  "has_success (res_body (fst (app None ''2024-03-01T00:00:00.000Z'' None
        \<lparr>req_origin = Some ''https://evil.example.org'', req_route = Health,
         req_body = Inr []\<rparr> fresh_store)))
   \<and> has_success (res_body (fst (app None ''2024-03-01T00:00:00.000Z'' None
        \<lparr>req_origin = None, req_route = NoRoute ''/api/unknown'', req_body = Inr []\<rparr>
        fresh_store)))
   \<and> has_success (res_body (fst (app None ''2024-03-01T00:00:00.000Z'' (Some Pool)
        \<lparr>req_origin = None, req_route = PostAttendance, req_body = Inr []\<rparr> fresh_store)))
   \<and> \<not> has_success (res_body (fst (app None ''2024-03-01T00:00:00.000Z'' (Some Pool)
        \<lparr>req_origin = None, req_route = Health, req_body = Inr []\<rparr> fresh_store)))"
proof -
  let ?evil = "\<lparr>req_origin = Some ''https://evil.example.org'', req_route = Health,
         req_body = Inr []\<rparr>"
  let ?unknown = "\<lparr>req_origin = None, req_route = NoRoute ''/api/unknown'', req_body = Inr []\<rparr>"
  let ?post = "\<lparr>req_origin = None, req_route = PostAttendance, req_body = Inr []\<rparr>"
  let ?health = "\<lparr>req_origin = None, req_route = Health, req_body = Inr []\<rparr>"
  have a: "cors_origin None (header_value (req_origin ?evil)) \<noteq> None"
    by (simp add: cors_origin_def allowedOrigins_def)
  have b: "\<exists>u. req_route ?unknown = NoRoute u" by simp
  have c: "req_route ?post \<noteq> Health \<and> req_route ?post \<noteq> ApiInfo \<and> Some Pool \<noteq> None"
    by simp
  have d: "cors_origin None (header_value (req_origin ?health)) = None
      \<and> \<not> isl (req_body ?health)
      \<and> (req_route ?health = Health \<or> req_route ?health = ApiInfo)"
    by (simp add: cors_origin_def)
  from envelope_amended [of None ?evil None "''2024-03-01T00:00:00.000Z''" fresh_store] a
       envelope_amended [of None ?unknown None "''2024-03-01T00:00:00.000Z''" fresh_store] b
       envelope_amended [of None ?post "Some Pool" "''2024-03-01T00:00:00.000Z''" fresh_store] c
       envelope_amended [of None ?health "Some Pool" "''2024-03-01T00:00:00.000Z''" fresh_store] d
  show ?thesis by blast
qed

end
